theory Spec2Isabelle
  imports Main "HOL-Library.Char_ord" "HOL-Library.List_Lexorder" "HOL-Library.Sublist"
    "HOL-Library.AList" "HOL-Library.Multiset"
begin

section \<open>Paths and the file system\<close>

text \<open>
  The traversal of \<^verbatim>\<open>dir_snap.py\<close> works on \<^verbatim>\<open>pathlib.Path\<close> values. An absolute path is
  modelled by the list of its parts below the root, so the root itself is \<open>[]\<close>. Python
  compares and sorts paths by their parts, and strings by code point; the list order of
  \<open>List_Lexorder\<close> over the byte order of \<open>Char_ord\<close> is that comparison.
\<close>

type_synonym path = "string list"

text \<open>\<^verbatim>\<open>Path.name\<close>: the last part, and the empty string for the root.\<close>

definition name :: "path \<Rightarrow> string" where
  "name p = (if p = [] then [] else last p)"

text \<open>\<^verbatim>\<open>p / s\<close>: joining the empty string leaves the path as it is.\<close>

definition joinpath :: "path \<Rightarrow> string \<Rightarrow> path" where
  "joinpath p s = (if s = [] then p else p @ [s])"

text \<open>
  A file system is an association list from absolute paths to nodes; the order of the
  list is the order in which the operating system enumerates entries. A regular file
  carries its content (one \<open>char\<close> is one byte), a symbolic link its absolute target.
  The root directory is always there and has no entry of its own.
\<close>

datatype node = File string | Dir | Symlink path

type_synonym filesystem = "(path \<times> node) list"

datatype exn =
    FileNotFoundError
  | NotADirectoryError
  | IsADirectoryError
  | FileExistsError
  | OSError
  | RuntimeError
  | RecursionError

definition node_at :: "filesystem \<Rightarrow> path \<Rightarrow> node option" where
  "node_at fs p = (if p = [] then Some Dir else map_of fs p)"

text \<open>
  Path resolution as the kernel does it for \<^verbatim>\<open>stat\<close>: walk the parts from the root and
  follow every symbolic link met, the last part included. The counter is the number of
  links that may still be followed (Linux gives up with \<^verbatim>\<open>ELOOP\<close> after 40).
\<close>

fun walk :: "filesystem \<Rightarrow> nat \<Rightarrow> path \<Rightarrow> path \<Rightarrow> path option" where
  "walk fs n cur [] = Some cur"
| "walk fs n cur (c # cs) =
     (case map_of fs (cur @ [c]) of
        None \<Rightarrow> None
      | Some Dir \<Rightarrow> walk fs n (cur @ [c]) cs
      | Some (File content) \<Rightarrow> (if cs = [] then Some (cur @ [c]) else None)
      | Some (Symlink target) \<Rightarrow>
          (case n of 0 \<Rightarrow> None | Suc m \<Rightarrow> walk fs m [] (target @ cs)))"

definition symlink_limit :: nat where
  "symlink_limit = 40"

definition realpath :: "filesystem \<Rightarrow> path \<Rightarrow> path option" where
  "realpath fs p = walk fs symlink_limit [] p"

text \<open>\<^verbatim>\<open>os.stat\<close> follows links; \<^verbatim>\<open>os.lstat\<close> does not follow the last part.\<close>

definition stat :: "filesystem \<Rightarrow> path \<Rightarrow> node option" where
  "stat fs p = (case realpath fs p of None \<Rightarrow> None | Some rp \<Rightarrow> node_at fs rp)"

definition lstat :: "filesystem \<Rightarrow> path \<Rightarrow> node option" where
  "lstat fs p =
     (if p = [] then Some Dir
      else (case realpath fs (butlast p) of
              None \<Rightarrow> None
            | Some d \<Rightarrow> (if node_at fs d = Some Dir then map_of fs (d @ [last p]) else None)))"

text \<open>
  The \<^verbatim>\<open>pathlib\<close> predicates. \<^verbatim>\<open>Path.exists\<close> and \<^verbatim>\<open>Path.is_dir\<close> follow symbolic links
  (\<^verbatim>\<open>is_dir\<close> is true for a link that points to a directory) and answer \<open>False\<close> where
  the path does not resolve; \<^verbatim>\<open>Path.is_symlink\<close> looks at the last part itself.
\<close>

definition exists :: "filesystem \<Rightarrow> path \<Rightarrow> bool" where
  "exists fs p = (stat fs p \<noteq> None)"

definition is_dir :: "filesystem \<Rightarrow> path \<Rightarrow> bool" where
  "is_dir fs p = (stat fs p = Some Dir)"

definition is_symlink :: "filesystem \<Rightarrow> path \<Rightarrow> bool" where
  "is_symlink fs p = (case lstat fs p of Some (Symlink target) \<Rightarrow> True | _ \<Rightarrow> False)"

text \<open>
  \<^verbatim>\<open>entry.stat().st_size\<close>: the length of a regular file in bytes. The size a directory
  reports depends on the file system; the model takes one block.
\<close>

definition st_size :: "filesystem \<Rightarrow> path \<Rightarrow> exn + int" where
  "st_size fs p =
     (case stat fs p of
        None \<Rightarrow> Inl FileNotFoundError
      | Some (File content) \<Rightarrow> Inr (int (length content))
      | Some other \<Rightarrow> Inr 4096)"

text \<open>
  \<^verbatim>\<open>Path.resolve()\<close> (not strict) is \<^verbatim>\<open>os.path.realpath\<close>, which follows the links itself
  and not through the kernel, so there is no bound on their number. \<open>joinrealpath\<close> is
  \<^verbatim>\<open>posixpath._joinrealpath\<close>: the parts are walked from the root; the target of a link is
  resolved by a call of its own, and \<open>seen\<close> holds the links whose resolution is under
  way. Meeting one of them again is a loop: the answer is then the path as far as it got,
  marked \<open>False\<close>. Links are followed as far as the path exists and the rest is appended
  unresolved. (The table of the links already resolved, which the library keeps beside
  the ones under way, saves work and does not change the answer.)
\<close>

function joinrealpath :: "filesystem \<Rightarrow> path list \<Rightarrow> path \<Rightarrow> path \<Rightarrow> path \<times> bool" where
  "joinrealpath fs seen cur [] = (cur, True)"
| "joinrealpath fs seen cur (c # cs) =
     (case map_of fs (cur @ [c]) of
        None \<Rightarrow> (cur @ c # cs, True)
      | Some Dir \<Rightarrow> joinrealpath fs seen (cur @ [c]) cs
      | Some (File content) \<Rightarrow> (cur @ c # cs, True)
      | Some (Symlink target) \<Rightarrow>
          (if cur @ [c] \<in> set seen then (cur @ c # cs, False)
           else (case joinrealpath fs ((cur @ [c]) # seen) [] target of
                   (p, False) \<Rightarrow> (p @ cs, False)
                 | (p, True) \<Rightarrow> joinrealpath fs seen p cs)))"
  by pat_completeness auto

text \<open>
  It always returns: a call for the target of a link has one more link under way, of the
  finitely many of the file system, and every other call has fewer parts left.
\<close>

termination joinrealpath
proof -
  define links :: "filesystem \<Rightarrow> path set"
    where "links = (\<lambda>fs. {p. \<exists>target. map_of fs p = Some (Symlink target)})"
  have less: "card (links fs - insert p (set seen)) < card (links fs - set seen)"
    if "map_of fs p = Some (Symlink target)" and "p \<notin> set seen"
    for fs p target seen
  proof (rule psubset_card_mono)
    have "links fs \<subseteq> dom (map_of fs)"
      by (auto simp: links_def)
    then have "finite (links fs)"
      using finite_dom_map_of finite_subset by blast
    then show "finite (links fs - set seen)"
      by blast
    have "p \<in> links fs - set seen"
      using that by (auto simp: links_def)
    then show "links fs - insert p (set seen) \<subset> links fs - set seen"
      by auto
  qed
  show ?thesis
    by (relation "measures [\<lambda>(fs, seen, cur, rest). card (links fs - set seen),
                             \<lambda>(fs, seen, cur, rest). length rest]")
       (auto simp: less)
qed

text \<open>
  \<^verbatim>\<open>Path.resolve\<close> then asks \<^verbatim>\<open>stat\<close> for the path found and raises \<^verbatim>\<open>RuntimeError\<close>
  (symlink loop) when the answer is \<^verbatim>\<open>ELOOP\<close>, which is the case exactly when a loop was
  met: a path resolved to the end holds no link any more. (From Python 3.13 on the loop
  is not reported; the model is the behaviour before.)
\<close>

definition resolve :: "filesystem \<Rightarrow> path \<Rightarrow> exn + path" where
  "resolve fs p =
     (case joinrealpath fs [] [] p of (q, True) \<Rightarrow> Inr q | (q, False) \<Rightarrow> Inl RuntimeError)"

subsection \<open>Operations that change the file system\<close>

text \<open>
  The destination side. \<^verbatim>\<open>main\<close> resolves the destination path before the traversal and
  every directory below it is created by the traversal itself, so the paths written to
  have no symbolic link among their parent parts; the writing operations therefore work
  on the path as spelled and raise where a parent part is not a directory.
\<close>

text \<open>
  \<^verbatim>\<open>shutil.rmtree\<close>: refuses a symbolic link and anything that is not a directory,
  otherwise removes the directory and everything below it.
\<close>

definition rmtree :: "path \<Rightarrow> filesystem \<Rightarrow> exn + filesystem" where
  "rmtree p fs =
     (case node_at fs p of
        None \<Rightarrow> Inl FileNotFoundError
      | Some (Symlink target) \<Rightarrow> Inl OSError
      | Some (File content) \<Rightarrow> Inl NotADirectoryError
      | Some Dir \<Rightarrow> Inr (filter (\<lambda>(q, n). \<not> prefix p q) fs))"

text \<open>
  \<^verbatim>\<open>Path.mkdir(parents=True, exist_ok=True)\<close>: creates the missing directories along the
  path; an existing directory is accepted, an existing file is not.
\<close>

fun mkdir_from :: "path \<Rightarrow> path \<Rightarrow> filesystem \<Rightarrow> exn + filesystem" where
  "mkdir_from cur [] fs = Inr fs"
| "mkdir_from cur (c # cs) fs =
     (case map_of fs (cur @ [c]) of
        None \<Rightarrow> mkdir_from (cur @ [c]) cs (fs @ [(cur @ [c], Dir)])
      | Some Dir \<Rightarrow> mkdir_from (cur @ [c]) cs fs
      | Some (File content) \<Rightarrow> Inl (if cs = [] then FileExistsError else NotADirectoryError)
      | Some (Symlink target) \<Rightarrow>
          (if cs = [] then (if is_dir fs (cur @ [c]) then Inr fs else Inl FileExistsError)
           else Inl NotADirectoryError))"

definition mkdir :: "path \<Rightarrow> filesystem \<Rightarrow> exn + filesystem" where
  "mkdir p fs = mkdir_from [] p fs"

text \<open>
  Opening a file for writing: the parent must be a directory, the path itself must not
  be one, and a symbolic link in the last part is not written through.
\<close>

definition writable :: "filesystem \<Rightarrow> path \<Rightarrow> exn option" where
  "writable fs p =
     (if p = [] then Some IsADirectoryError
      else (case node_at fs (butlast p) of
              None \<Rightarrow> Some FileNotFoundError
            | Some (File content) \<Rightarrow> Some NotADirectoryError
            | Some (Symlink target) \<Rightarrow> Some NotADirectoryError
            | Some Dir \<Rightarrow>
                (case map_of fs p of
                   Some Dir \<Rightarrow> Some IsADirectoryError
                 | Some (Symlink target) \<Rightarrow> Some OSError
                 | _ \<Rightarrow> None)))"

text \<open>\<^verbatim>\<open>Path.touch()\<close>: creates an empty file where there is none.\<close>

definition touch :: "path \<Rightarrow> filesystem \<Rightarrow> exn + filesystem" where
  "touch p fs =
     (if exists fs p then Inr fs
      else (case writable fs p of
              Some e \<Rightarrow> Inl e
            | None \<Rightarrow> Inr (AList.update p (File []) fs)))"

text \<open>\<^verbatim>\<open>Path.write_text(text)\<close>: creates the file or replaces its content.\<close>

definition write_text :: "path \<Rightarrow> string \<Rightarrow> filesystem \<Rightarrow> exn + filesystem" where
  "write_text p text fs =
     (case writable fs p of
        Some e \<Rightarrow> Inl e
      | None \<Rightarrow> Inr (AList.update p (File text) fs))"

text \<open>Reading a document back (used by the statements only, never by the program).\<close>

definition read_text :: "filesystem \<Rightarrow> path \<Rightarrow> string option" where
  "read_text fs p = (case map_of fs p of Some (File content) \<Rightarrow> Some content | _ \<Rightarrow> None)"

section \<open>State, exceptions and the collaborators\<close>

text \<open>
  What a run can change: the file system, the lines printed to standard output, and the
  counter of the progress bar. The printed lines are kept by their kind and arguments:
  \<open>Error_file entry e\<close> is \<^verbatim>\<open>print(f"Error while processing file '{entry}': {e}")\<close>, and
  \<open>Error_directory entry e\<close> the same message with the word \<^verbatim>\<open>directory\<close>.
\<close>

datatype line =
    Text string
  | Error_file path exn
  | Error_directory path exn

record state =
  disk :: filesystem
  stdout :: "line list"
  bar_n :: nat

text \<open>
  A statement of the program is a function from the state to a result and the state it
  leaves: \<open>Inl e\<close> is an exception \<open>e\<close> in flight, \<open>Inr x\<close> a normal result \<open>x\<close>.
\<close>

type_synonym 'a io = "state \<Rightarrow> (exn + 'a) \<times> state"

definition io_return :: "'a \<Rightarrow> 'a io" where
  "io_return x = (\<lambda>s. (Inr x, s))"

definition io_raise :: "exn \<Rightarrow> 'a io" where
  "io_raise e = (\<lambda>s. (Inl e, s))"

definition io_bind :: "'a io \<Rightarrow> ('a \<Rightarrow> 'b io) \<Rightarrow> 'b io" where
  "io_bind m f = (\<lambda>s. case m s of (Inl e, s') \<Rightarrow> (Inl e, s') | (Inr x, s') \<Rightarrow> f x s')"

definition io_lift :: "(state \<Rightarrow> 'a \<times> state) \<Rightarrow> 'a io" where
  "io_lift f = (\<lambda>s. case f s of (x, s') \<Rightarrow> (Inr x, s'))"

definition on_disk :: "(filesystem \<Rightarrow> exn + filesystem) \<Rightarrow> unit io" where
  "on_disk f = (\<lambda>s. case f (disk s) of Inl e \<Rightarrow> (Inl e, s) | Inr fs' \<Rightarrow> (Inr (), s\<lparr>disk := fs'\<rparr>))"

definition print :: "line \<Rightarrow> state \<Rightarrow> state" where
  "print l s = s\<lparr>stdout := stdout s @ [l]\<rparr>"

text \<open>\<^verbatim>\<open>progress_bar.update() if progress_bar else None\<close>; the bar is there or is \<^verbatim>\<open>None\<close>.\<close>

definition update_bar :: "bool \<Rightarrow> unit io" where
  "update_bar progress_bar = (\<lambda>s. (Inr (), if progress_bar then s\<lparr>bar_n := bar_n s + 1\<rparr> else s))"

text \<open>
  The modules \<^verbatim>\<open>templates\<close> and \<^verbatim>\<open>utils\<close> are imported by \<^verbatim>\<open>dir_snap.py\<close> and are not part
  of the sources at hand, so what they provide is a parameter of the model. A template
  with placeholders stands for its \<^verbatim>\<open>.format(...)\<close>, taking the arguments in the order of
  the call. \<open>dest_path_root\<close> is the module's global: \<^verbatim>\<open>None\<close> until \<^verbatim>\<open>main\<close> assigns the
  resolved destination, once, before the traversal, which only reads it.
  \<open>append_fault\<close> stands for the failures of appending to a file that the file system of
  the model does not show (a full disk, a revoked permission): where it answers an
  exception, \<^verbatim>\<open>append_text_to_file\<close> raises it.
\<close>

record env =
  dest_path_root :: "path option"
  list_dir_contents :: "path \<Rightarrow> bool \<Rightarrow> bool \<Rightarrow> filesystem \<Rightarrow> path list option"
  append_fault :: "path \<Rightarrow> string \<Rightarrow> filesystem \<Rightarrow> exn option"
  round_file_size_to_human_friendly_units :: "int \<Rightarrow> string"
  escape_html_special_chars :: "string \<Rightarrow> bool \<Rightarrow> string"
  template_html_header :: "string \<Rightarrow> string"
  template_files_table_header :: string
  template_files_table_row :: "string \<Rightarrow> string \<Rightarrow> string"
  template_table_close :: string
  template_dirs_table_header :: string
  template_dirs_table_row :: "string \<Rightarrow> string \<Rightarrow> string \<Rightarrow> string"
  template_symlinks_table_header :: string
  template_symlinks_table_row :: "string \<Rightarrow> string \<Rightarrow> string"
  template_table_footer :: "string \<Rightarrow> string"

text \<open>
  Modelled from the spec: \<^verbatim>\<open>append_text_to_file\<close> of the absent module \<^verbatim>\<open>utils\<close>, the
  collaborator \<^verbatim>\<open>appendText(filePath, text)\<close>: the text is added at the end of the file,
  which is created when it is not there.
\<close>

definition append_text :: "path \<Rightarrow> string \<Rightarrow> filesystem \<Rightarrow> exn + filesystem" where
  "append_text p text fs =
     (case writable fs p of
        Some e \<Rightarrow> Inl e
      | None \<Rightarrow>
          Inr (AList.update p
                 (File (case read_text fs p of None \<Rightarrow> text | Some content \<Rightarrow> content @ text)) fs))"

definition append_text_to_file :: "env \<Rightarrow> path \<Rightarrow> string \<Rightarrow> unit io" where
  "append_text_to_file E p text =
     (\<lambda>s. case append_fault E p text (disk s) of
             Some e \<Rightarrow> (Inl e, s)
           | None \<Rightarrow> on_disk (append_text p text) s)"

definition newline :: string where
  "newline = [CHR 0x0A]"

section \<open>The program\<close>

subsection \<open>The three row writers\<close>

text \<open>
  Lines 18 to 25: the size of the file is read first, so an entry whose \<^verbatim>\<open>stat\<close> raises
  leaves the report untouched; the size is returned after the row has been appended.
\<close>

definition write_file_entry :: "env \<Rightarrow> path \<Rightarrow> path \<Rightarrow> bool \<Rightarrow> int io" where
  "write_file_entry E entry out_file_path progress_bar =
     io_bind (\<lambda>s. (st_size (disk s) entry, s)) (\<lambda>filesize.
     let filesize_rounded = round_file_size_to_human_friendly_units E filesize;
         filename_escaped = escape_html_special_chars E (name entry) False;
         table_row = template_files_table_row E filename_escaped filesize_rounded
     in
     io_bind (append_text_to_file E out_file_path table_row) (\<lambda>_.
     io_bind (update_bar progress_bar) (\<lambda>_.
     io_return filesize)))"

text \<open>
  Lines 28 to 34. Line 30 assigns \<^verbatim>\<open>dirname_escaped\<close> and line 31 assigns it again, escaped
  for a link; only the second value is used, for the link and for the name shown.
\<close>

definition write_dir_entry :: "env \<Rightarrow> path \<Rightarrow> int \<Rightarrow> path \<Rightarrow> unit io" where
  "write_dir_entry E entry dir_size out_file_path =
     (let dir_size_readable = round_file_size_to_human_friendly_units E dir_size;
          dirname_escaped = escape_html_special_chars E (name entry) True;
          href = dirname_escaped @ ''/'' @ dirname_escaped;
          table_row = template_dirs_table_row E href dirname_escaped dir_size_readable
      in append_text_to_file E out_file_path table_row)"

text \<open>Lines 37 to 42: the name shown for the target is the last part of the resolved path.\<close>

definition write_symlink_entry :: "env \<Rightarrow> path \<Rightarrow> path \<Rightarrow> bool \<Rightarrow> unit io" where
  "write_symlink_entry E entry out_file_path progress_bar =
     (let filename_escaped = escape_html_special_chars E (name entry) False in
      io_bind (\<lambda>s. (resolve (disk s) entry, s)) (\<lambda>resolved.
      let file_resolved = name resolved;
          table_row = template_symlinks_table_row E filename_escaped file_resolved
      in
      io_bind (append_text_to_file E out_file_path table_row) (\<lambda>_.
      update_bar progress_bar)))"

subsection \<open>The parts of \<^verbatim>\<open>get_snapshot\<close>\<close>

text \<open>
  Lines 48 to 55: the mirror directory of this level is removed when it exists, created
  again, and the report file is created in it.
\<close>

definition reset_mirror :: "path \<Rightarrow> path \<Rightarrow> unit io" where
  "reset_mirror pwd out_file_path =
     io_bind (\<lambda>s. if exists (disk s) pwd then on_disk (rmtree pwd) s else io_return () s) (\<lambda>_.
     io_bind (on_disk (mkdir pwd)) (\<lambda>_.
     on_disk (touch out_file_path)))"

text \<open>
  Lines 72 to 79: the loop that sorts the entries into three lists, \<^verbatim>\<open>is_dir\<close> asked
  first, \<^verbatim>\<open>is_symlink\<close> second.
\<close>

fun categorize ::
  "filesystem \<Rightarrow> path list \<Rightarrow> path list \<times> path list \<times> path list \<Rightarrow> path list \<times> path list \<times> path list"
where
  "categorize fs [] (symlinks, files, dirs) = (symlinks, files, dirs)"
| "categorize fs (entry # rest) (symlinks, files, dirs) =
     (if is_dir fs entry then categorize fs rest (symlinks, files, dirs @ [entry])
      else if is_symlink fs entry then categorize fs rest (symlinks @ [entry], files, dirs)
      else categorize fs rest (symlinks, files @ [entry], dirs))"

text \<open>
  Lines 90 to 95: the loop over the files. Whatever \<^verbatim>\<open>write_file_entry\<close> raises is caught
  and printed, and the loop goes on with the total as it was.
\<close>

fun files_loop :: "env \<Rightarrow> path \<Rightarrow> bool \<Rightarrow> path list \<Rightarrow> int \<Rightarrow> state \<Rightarrow> int \<times> state" where
  "files_loop E out_file_path progress_bar [] source_path_size s = (source_path_size, s)"
| "files_loop E out_file_path progress_bar (entry # rest) source_path_size s =
     (case write_file_entry E entry out_file_path progress_bar s of
        (Inr filesize, s') \<Rightarrow>
          files_loop E out_file_path progress_bar rest (source_path_size + filesize) s'
      | (Inl e, s') \<Rightarrow>
          files_loop E out_file_path progress_bar rest source_path_size (print (Error_file entry e) s'))"

text \<open>
  Lines 105 to 112: the loop over the directories. \<open>snap\<close> is the recursive call, given
  the source path, the destination and the depth left. The total is increased as soon as
  the call has returned, before the row is written; an exception of either is caught and
  printed.
\<close>

fun dirs_loop ::
  "(path \<Rightarrow> path \<Rightarrow> int \<Rightarrow> int io) \<Rightarrow> env \<Rightarrow> path \<Rightarrow> path \<Rightarrow> path \<Rightarrow> int \<Rightarrow> path list \<Rightarrow>
   int \<Rightarrow> state \<Rightarrow> int \<times> state"
where
  "dirs_loop snap E src_path pwd out_file_path max_rec_depth [] source_path_size s =
     (source_path_size, s)"
| "dirs_loop snap E src_path pwd out_file_path max_rec_depth (entry # rest) source_path_size s =
     (case snap (joinpath src_path (name entry)) pwd (max_rec_depth - 1) s of
        (Inl e, s') \<Rightarrow>
          dirs_loop snap E src_path pwd out_file_path max_rec_depth rest source_path_size
            (print (Error_directory entry e) s')
      | (Inr dir_size, s') \<Rightarrow>
          (case write_dir_entry E entry dir_size out_file_path s' of
             (Inl e, s'') \<Rightarrow>
               dirs_loop snap E src_path pwd out_file_path max_rec_depth rest
                 (source_path_size + dir_size) (print (Error_directory entry e) s'')
           | (Inr u, s'') \<Rightarrow>
               dirs_loop snap E src_path pwd out_file_path max_rec_depth rest
                 (source_path_size + dir_size) s''))"

text \<open>
  Lines 120 to 124: the loop over the symbolic links; its message says
  \<^verbatim>\<open>directory\<close>, as the source does.
\<close>

fun symlinks_loop :: "env \<Rightarrow> path \<Rightarrow> bool \<Rightarrow> path list \<Rightarrow> state \<Rightarrow> state" where
  "symlinks_loop E out_file_path progress_bar [] s = s"
| "symlinks_loop E out_file_path progress_bar (entry # rest) s =
     (case write_symlink_entry E entry out_file_path progress_bar s of
        (Inr u, s') \<Rightarrow> symlinks_loop E out_file_path progress_bar rest s'
      | (Inl e, s') \<Rightarrow>
          symlinks_loop E out_file_path progress_bar rest (print (Error_directory entry e) s'))"

text \<open>
  Lines 87 to 89: the head of the table of the files, and its placeholder when there are
  none.
\<close>

definition open_files_table :: "env \<Rightarrow> path \<Rightarrow> path list \<Rightarrow> unit io" where
  "open_files_table E out_file_path files =
     io_bind (append_text_to_file E out_file_path (template_files_table_header E)) (\<lambda>_.
     if files = [] then append_text_to_file E out_file_path (''No files found.'' @ newline)
     else io_return ())"

text \<open>Lines 86 to 96: the table of the files.\<close>

definition write_files_table :: "env \<Rightarrow> path \<Rightarrow> bool \<Rightarrow> path list \<Rightarrow> int \<Rightarrow> int io" where
  "write_files_table E out_file_path progress_bar files source_path_size =
     io_bind (open_files_table E out_file_path files) (\<lambda>_.
     io_bind (io_lift (files_loop E out_file_path progress_bar files source_path_size))
       (\<lambda>source_path_size.
     io_bind (append_text_to_file E out_file_path (template_table_close E)) (\<lambda>_.
     io_return source_path_size)))"

text \<open>
  Lines 99 to 104: the head of the table of the directories. With no directory, or with
  the depth used up, a placeholder line is written; in the second case the list of
  directories is emptied (\<^verbatim>\<open>dirs = []\<close>) before the loop.
\<close>

definition open_dirs_table :: "env \<Rightarrow> path \<Rightarrow> int \<Rightarrow> path list \<Rightarrow> path list io" where
  "open_dirs_table E out_file_path max_rec_depth dirs =
     io_bind (append_text_to_file E out_file_path (template_dirs_table_header E)) (\<lambda>_.
     if dirs = [] then
       io_bind (append_text_to_file E out_file_path (''No subdirectories found.'' @ newline))
         (\<lambda>_. io_return dirs)
     else if max_rec_depth = 0 then
       io_bind (append_text_to_file E out_file_path (''Recursion depth limit reached!'' @ newline))
         (\<lambda>_. io_return [])
     else io_return dirs)"

text \<open>Lines 98 to 113: the table of the directories.\<close>

definition write_dirs_table ::
  "(path \<Rightarrow> path \<Rightarrow> int \<Rightarrow> int io) \<Rightarrow> env \<Rightarrow> path \<Rightarrow> path \<Rightarrow> path \<Rightarrow> int \<Rightarrow> path list \<Rightarrow>
   int \<Rightarrow> int io"
where
  "write_dirs_table snap E src_path pwd out_file_path max_rec_depth dirs source_path_size =
     io_bind (open_dirs_table E out_file_path max_rec_depth dirs) (\<lambda>dirs.
     io_bind (io_lift (dirs_loop snap E src_path pwd out_file_path max_rec_depth dirs source_path_size))
       (\<lambda>source_path_size.
     io_bind (append_text_to_file E out_file_path (template_table_close E)) (\<lambda>_.
     io_return source_path_size)))"

text \<open>Lines 115 to 125: the table of the symbolic links, left out when they are ignored.\<close>

definition write_symlinks_table :: "env \<Rightarrow> path \<Rightarrow> bool \<Rightarrow> bool \<Rightarrow> path list \<Rightarrow> unit io" where
  "write_symlinks_table E out_file_path progress_bar ignore_symlinks symlinks =
     (if \<not> ignore_symlinks then
        io_bind (append_text_to_file E out_file_path (template_symlinks_table_header E)) (\<lambda>_.
        io_bind (if symlinks = [] then append_text_to_file E out_file_path (''No symlinks found.'' @ newline)
                 else io_return ()) (\<lambda>_.
        io_bind (io_lift (\<lambda>s. ((), symlinks_loop E out_file_path progress_bar symlinks s))) (\<lambda>_.
        append_text_to_file E out_file_path (template_table_close E))))
      else io_return ())"

text \<open>Lines 127 to 131: the footer with the total, which is also the value returned.\<close>

definition write_footer :: "env \<Rightarrow> path \<Rightarrow> bool \<Rightarrow> int \<Rightarrow> int io" where
  "write_footer E out_file_path progress_bar source_path_size =
     (let total_dir_size = round_file_size_to_human_friendly_units E source_path_size in
      io_bind (append_text_to_file E out_file_path (template_table_footer E total_dir_size)) (\<lambda>_.
      io_bind (update_bar progress_bar) (\<lambda>_.
      io_return source_path_size)))"

text \<open>Lines 71 to 131: everything after the listing has been obtained and sorted.\<close>

definition write_report ::
  "(path \<Rightarrow> path \<Rightarrow> int \<Rightarrow> int io) \<Rightarrow> env \<Rightarrow> path \<Rightarrow> path \<Rightarrow> path \<Rightarrow> bool \<Rightarrow> bool \<Rightarrow> int \<Rightarrow>
   path list \<Rightarrow> int io"
where
  "write_report snap E src_path pwd out_file_path progress_bar ignore_symlinks max_rec_depth
     src_path_contents =
     (\<lambda>s. case categorize (disk s) src_path_contents ([], [], []) of
        (symlinks, files, dirs) \<Rightarrow>
          (let html_header = template_html_header E (escape_html_special_chars E (name src_path) False)
           in
           io_bind (on_disk (write_text out_file_path html_header)) (\<lambda>_.
           io_bind (write_files_table E out_file_path progress_bar files 0) (\<lambda>source_path_size.
           io_bind (write_dirs_table snap E src_path pwd out_file_path max_rec_depth dirs
                      source_path_size) (\<lambda>source_path_size.
           io_bind (write_symlinks_table E out_file_path progress_bar ignore_symlinks symlinks) (\<lambda>_.
           write_footer E out_file_path progress_bar source_path_size)))) s))"

subsection \<open>\<^verbatim>\<open>get_snapshot\<close>\<close>

text \<open>
  The body of \<^verbatim>\<open>get_snapshot\<close> (lines 47 to 131), with the recursive call as the parameter
  \<open>snap\<close>: the reset of the mirror directory, then the guard of lines 57 to 62, then the
  listing of lines 64 to 66 and its sorting in line 69, then the report.
\<close>

definition marker :: string where
  "marker = ''<b>This was the original destination path!</b>'' @ newline"

definition snapshot_body ::
  "(path \<Rightarrow> path \<Rightarrow> int \<Rightarrow> int io) \<Rightarrow> env \<Rightarrow> path \<Rightarrow> path \<Rightarrow> bool \<Rightarrow> bool \<Rightarrow> bool \<Rightarrow> int \<Rightarrow> int io"
where
  "snapshot_body snap E src_path dest_path progress_bar ignore_hidden ignore_symlinks max_rec_depth =
     (let pwd = joinpath dest_path (name src_path);
          out_file_path = joinpath pwd (name src_path @ ''.html'')
      in
      io_bind (reset_mirror pwd out_file_path) (\<lambda>_.
      if Some src_path = dest_path_root E then
        io_bind (\<lambda>s. (Inr (), print (Text ''Original destination path reached!!'') s)) (\<lambda>_.
        io_bind (on_disk (write_text out_file_path marker)) (\<lambda>_.
        io_return (- 1)))
      else
        io_bind (\<lambda>s. (Inr (list_dir_contents E src_path ignore_symlinks ignore_hidden (disk s)), s))
          (\<lambda>src_path_contents.
        case src_path_contents of
          None \<Rightarrow> io_return 0
        | Some contents \<Rightarrow>
            write_report snap E src_path pwd out_file_path progress_bar ignore_symlinks
              max_rec_depth (sort contents))))"

text \<open>
  The recursion of \<^verbatim>\<open>get_snapshot\<close> has no bound of its own: a negative depth never reaches
  0 and a symbolic link may lead back up the tree. Python bounds it: beyond the
  interpreter's recursion limit a call raises \<^verbatim>\<open>RecursionError\<close>, an \<^verbatim>\<open>Exception\<close> like any
  other, which the loop over the directories of the caller catches. The first argument
  is the number of nested calls still allowed.
\<close>

primrec get_snapshot ::
  "nat \<Rightarrow> env \<Rightarrow> path \<Rightarrow> path \<Rightarrow> bool \<Rightarrow> bool \<Rightarrow> bool \<Rightarrow> int \<Rightarrow> int io"
where
  "get_snapshot 0 E src_path dest_path progress_bar ignore_hidden ignore_symlinks max_rec_depth =
     io_raise RecursionError"
| "get_snapshot (Suc limit) E src_path dest_path progress_bar ignore_hidden ignore_symlinks
     max_rec_depth =
     snapshot_body
       (\<lambda>src_path' dest_path' max_rec_depth'.
          get_snapshot limit E src_path' dest_path' progress_bar ignore_hidden ignore_symlinks
            max_rec_depth')
       E src_path dest_path progress_bar ignore_hidden ignore_symlinks max_rec_depth"

section \<open>What the statements speak about\<close>

text \<open>
  The outcome of each entry of a loop, in the order of the loop and each in the state in
  which the loop reaches it: for a file the size returned by \<^verbatim>\<open>write_file_entry\<close> or the
  exception caught.
\<close>

fun file_outcomes :: "env \<Rightarrow> path \<Rightarrow> bool \<Rightarrow> path list \<Rightarrow> state \<Rightarrow> (exn + int) list" where
  "file_outcomes E out_file_path progress_bar [] s = []"
| "file_outcomes E out_file_path progress_bar (entry # rest) s =
     (case write_file_entry E entry out_file_path progress_bar s of
        (Inr filesize, s') \<Rightarrow> Inr filesize # file_outcomes E out_file_path progress_bar rest s'
      | (Inl e, s') \<Rightarrow>
          Inl e # file_outcomes E out_file_path progress_bar rest (print (Error_file entry e) s'))"

fun symlink_outcomes :: "env \<Rightarrow> path \<Rightarrow> bool \<Rightarrow> path list \<Rightarrow> state \<Rightarrow> (exn + unit) list" where
  "symlink_outcomes E out_file_path progress_bar [] s = []"
| "symlink_outcomes E out_file_path progress_bar (entry # rest) s =
     (case write_symlink_entry E entry out_file_path progress_bar s of
        (Inr u, s') \<Rightarrow> Inr u # symlink_outcomes E out_file_path progress_bar rest s'
      | (Inl e, s') \<Rightarrow>
          Inl e # symlink_outcomes E out_file_path progress_bar rest (print (Error_directory entry e) s'))"

text \<open>
  For a directory: the recursive call raised; or it returned a total and writing the
  row raised; or it returned a total and the row was written.
\<close>

datatype dir_outcome = Call_raised exn | Row_raised int exn | Row_written int

fun dir_outcomes ::
  "(path \<Rightarrow> path \<Rightarrow> int \<Rightarrow> int io) \<Rightarrow> env \<Rightarrow> path \<Rightarrow> path \<Rightarrow> path \<Rightarrow> int \<Rightarrow> path list \<Rightarrow>
   state \<Rightarrow> dir_outcome list"
where
  "dir_outcomes snap E src_path pwd out_file_path max_rec_depth [] s = []"
| "dir_outcomes snap E src_path pwd out_file_path max_rec_depth (entry # rest) s =
     (case snap (joinpath src_path (name entry)) pwd (max_rec_depth - 1) s of
        (Inl e, s') \<Rightarrow>
          Call_raised e #
          dir_outcomes snap E src_path pwd out_file_path max_rec_depth rest
            (print (Error_directory entry e) s')
      | (Inr dir_size, s') \<Rightarrow>
          (case write_dir_entry E entry dir_size out_file_path s' of
             (Inl e, s'') \<Rightarrow>
               Row_raised dir_size e #
               dir_outcomes snap E src_path pwd out_file_path max_rec_depth rest
                 (print (Error_directory entry e) s'')
           | (Inr u, s'') \<Rightarrow>
               Row_written dir_size #
               dir_outcomes snap E src_path pwd out_file_path max_rec_depth rest s''))"

text \<open>The sizes of the entries that were processed without an exception.\<close>

fun successes :: "(exn + 'a) list \<Rightarrow> 'a list" where
  "successes [] = []"
| "successes (Inr x # rest) = x # successes rest"
| "successes (Inl e # rest) = successes rest"

text \<open>The entries whose processing raised, each with the exception caught.\<close>

fun failures :: "path list \<Rightarrow> (exn + 'a) list \<Rightarrow> (path \<times> exn) list" where
  "failures (entry # entries) (Inl e # rest) = (entry, e) # failures entries rest"
| "failures (entry # entries) (Inr x # rest) = failures entries rest"
| "failures entries outcomes = []"

text \<open>The totals returned by the recursive calls that returned.\<close>

fun returned_totals :: "dir_outcome list \<Rightarrow> int list" where
  "returned_totals [] = []"
| "returned_totals (Call_raised e # rest) = returned_totals rest"
| "returned_totals (Row_raised dir_size e # rest) = dir_size # returned_totals rest"
| "returned_totals (Row_written dir_size # rest) = dir_size # returned_totals rest"

text \<open>The totals of the directories processed without an exception.\<close>

fun unfailed_totals :: "dir_outcome list \<Rightarrow> int list" where
  "unfailed_totals [] = []"
| "unfailed_totals (Row_written dir_size # rest) = dir_size # unfailed_totals rest"
| "unfailed_totals (other # rest) = unfailed_totals rest"

fun dir_failures :: "path list \<Rightarrow> dir_outcome list \<Rightarrow> (path \<times> exn) list" where
  "dir_failures (entry # entries) (Call_raised e # rest) = (entry, e) # dir_failures entries rest"
| "dir_failures (entry # entries) (Row_raised dir_size e # rest) = (entry, e) # dir_failures entries rest"
| "dir_failures (entry # entries) (Row_written dir_size # rest) = dir_failures entries rest"
| "dir_failures entries outcomes = []"

subsection \<open>Collaborators and file systems for the examples\<close>

text \<open>
  Modelled from the spec: \<^verbatim>\<open>list_dir_contents\<close> of the absent module \<^verbatim>\<open>utils\<close>, the
  collaborator \<^verbatim>\<open>listDirectoryContents(path, ignoreSymlinks, ignoreHidden)\<close>: the direct
  children of a directory in the order of the file system, without the hidden ones and
  without the symbolic links where asked, and \<^verbatim>\<open>None\<close> for a path that cannot be listed.
\<close>

definition hidden :: "path \<Rightarrow> bool" where
  "hidden p = (case name p of [] \<Rightarrow> False | c # cs \<Rightarrow> c = CHR ''.'')"

definition scan_dir :: "path \<Rightarrow> bool \<Rightarrow> bool \<Rightarrow> filesystem \<Rightarrow> path list option" where
  "scan_dir p ignore_symlinks ignore_hidden fs =
     (case realpath fs p of
        None \<Rightarrow> None
      | Some rp \<Rightarrow>
          (if node_at fs rp \<noteq> Some Dir then None
           else Some (filter (\<lambda>q. \<not> (ignore_hidden \<and> hidden q) \<and> \<not> (ignore_symlinks \<and> is_symlink fs q))
                  (map (\<lambda>(q, n). p @ [last q]) (filter (\<lambda>(q, n). q \<noteq> [] \<and> butlast q = rp) fs)))))"

text \<open>
  Modelled from the spec: the templates of the absent module \<^verbatim>\<open>templates\<close>, and
  \<^verbatim>\<open>round_file_size_to_human_friendly_units\<close> and \<^verbatim>\<open>escape_html_special_chars\<close> of the absent
  module \<^verbatim>\<open>utils\<close>, for the examples only. The specification says what each of them is
  given and leaves the wording to the collaborator; the examples use short tags, the
  size in decimal with the unit \<^verbatim>\<open>B\<close>, and no escaping.
\<close>

fun decimal :: "nat \<Rightarrow> string" where
  "decimal n = (if n < 10 then [char_of (48 + n)] else decimal (n div 10) @ [char_of (48 + n mod 10)])"

definition sample_round :: "int \<Rightarrow> string" where
  "sample_round n = (if n < 0 then ''-'' @ decimal (nat (- n)) else decimal (nat n)) @ '' B''"

definition sample_env :: "path \<Rightarrow> env" where
  "sample_env root =
     \<lparr> dest_path_root = Some root,
       list_dir_contents = scan_dir,
       append_fault = (\<lambda>p text fs. None),
       round_file_size_to_human_friendly_units = sample_round,
       escape_html_special_chars = (\<lambda>text url. text),
       template_html_header = (\<lambda>filename. ''<h1>'' @ filename @ ''</h1>''),
       template_files_table_header = ''<files>'',
       template_files_table_row = (\<lambda>filename filesize. ''<f>'' @ filename @ '': '' @ filesize @ ''</f>''),
       template_table_close = ''<end>'',
       template_dirs_table_header = ''<dirs>'',
       template_dirs_table_row =
         (\<lambda>href dirname dirsize. ''<d>'' @ dirname @ '': '' @ dirsize @ ''</d>''),
       template_symlinks_table_header = ''<links>'',
       template_symlinks_table_row =
         (\<lambda>filename filename_resolved. ''<l>'' @ filename @ '' -> '' @ filename_resolved @ ''</l>''),
       template_table_footer = (\<lambda>total_dir_size. ''<total>'' @ total_dir_size @ ''</total>'') \<rparr>"

definition initially :: "filesystem \<Rightarrow> state" where
  "initially fs = \<lparr> disk = fs, stdout = [], bar_n = 0 \<rparr>"

text \<open>
  The example of the specification: \<^verbatim>\<open>/a\<close> holds \<^verbatim>\<open>x.txt\<close>, \<^verbatim>\<open>.hidden\<close> and an empty
  directory \<^verbatim>\<open>b\<close> (the files shortened to 5 and 3 bytes).
\<close>

definition tree_a :: filesystem where
  "tree_a =
     [([''a''], Dir), ([''a'', ''x.txt''], File ''12345''), ([''a'', ''.hidden''], File ''123''),
      ([''a'', ''b''], Dir)]"

text \<open>\<^verbatim>\<open>/s/l\<close> is a symbolic link to the directory \<^verbatim>\<open>/t\<close>, which holds a file of 5 bytes.\<close>

definition tree_link :: filesystem where
  "tree_link =
     [([''s''], Dir), ([''s'', ''l''], Symlink [''t'']), ([''t''], Dir),
      ([''t'', ''f''], File ''12345'')]"

text \<open>
  The first tree after an earlier run: the mirror \<^verbatim>\<open>/d/a\<close> is there, once with a file left
  in it and once empty.
\<close>

definition tree_a_stale :: filesystem where
  "tree_a_stale =
     tree_a @ [([''d''], Dir), ([''d'', ''a''], Dir), ([''d'', ''a'', ''old.txt''], File ''stale'')]"

definition tree_a_clean :: filesystem where
  "tree_a_clean = tree_a @ [([''d''], Dir), ([''d'', ''a''], Dir)]"

text \<open>
  A second run with source and destination both \<^verbatim>\<open>/a\<close>: the mirror \<^verbatim>\<open>/a/a\<close> of the first
  run is there, with a file in it.
\<close>

definition tree_self :: filesystem where
  "tree_self = [([''a''], Dir), ([''a'', ''a''], Dir), ([''a'', ''a'', ''old.txt''], File ''stale'')]"

text \<open>\<^verbatim>\<open>/a\<close> holds nothing but the directory \<^verbatim>\<open>b\<close>, which holds one file of 5 bytes.\<close>

definition tree_nested :: filesystem where
  "tree_nested = [([''a''], Dir), ([''a'', ''b''], Dir), ([''a'', ''b'', ''f''], File ''12345'')]"

text \<open>The same with a second directory \<^verbatim>\<open>c\<close>, which holds one file of 3 bytes.\<close>

definition tree_two :: filesystem where
  "tree_two =
     [([''a''], Dir), ([''a'', ''b''], Dir), ([''a'', ''b'', ''f''], File ''12345''),
      ([''a'', ''c''], Dir), ([''a'', ''c'', ''g''], File ''123'')]"

text \<open>
  The sample collaborators with one input/output error: appending the row of the
  directory \<^verbatim>\<open>b\<close> (5 bytes) to a report raises \<^verbatim>\<open>OSError\<close>; every other append works.
\<close>

definition flaky_env :: env where
  "flaky_env =
     (sample_env [''d''])
       \<lparr>append_fault := (\<lambda>p text fs. if text = ''<d>b: 5 B</d>'' then Some OSError else None)\<rparr>"

text \<open>
  The same for a file: appending the row of the file \<^verbatim>\<open>f\<close> (5 bytes) raises \<^verbatim>\<open>OSError\<close>.
\<close>

definition flaky_file_env :: env where
  "flaky_file_env =
     (sample_env [''d''])
       \<lparr>append_fault := (\<lambda>p text fs. if text = ''<f>f: 5 B</f>'' then Some OSError else None)\<rparr>"

text \<open>
  A chain of \<open>n\<close> symbolic links \<^verbatim>\<open>/0\<close>, \<^verbatim>\<open>/1\<close>, ... that ends in a file, and two links
  that point to each other.
\<close>

definition link_chain :: "nat \<Rightarrow> filesystem" where
  "link_chain n =
     map (\<lambda>i. ([decimal i], Symlink [decimal (Suc i)])) [0..<n] @ [([decimal n], File ''12345'')]"

definition link_loop :: filesystem where
  "link_loop = [([''a''], Symlink [''b'']), ([''b''], Symlink [''a''])]"

text \<open>A statement that only ever adds lines to the output, whatever its result.\<close>

definition grows :: "'a io \<Rightarrow> bool" where
  "grows m = (\<forall>s r s'. m s = (r, s') \<longrightarrow> prefix (stdout s) (stdout s'))"

section \<open>Basic facts\<close>

subsection \<open>Resolving symbolic links\<close>

text \<open>
  \<^verbatim>\<open>Path.resolve\<close> follows a chain of more links than the kernel would, here 41; a link
  met twice on the way without a loop (\<^verbatim>\<open>/l\<close> below) is no error; a loop raises.
\<close>

lemma resolve_long_chain: "resolve (link_chain 41) [''0''] = Inr [''41'']"
  by code_simp

lemma resolve_link_met_twice:
  "resolve [([''d''], Dir), ([''l''], Symlink [''d'']), ([''d'', ''m''], Symlink [''l'', ''f'']),
            ([''d'', ''f''], File ''12345'')] [''l'', ''m''] = Inr [''d'', ''f'']"
  by code_simp

lemma resolve_loop: "resolve link_loop [''a''] = Inl RuntimeError"
  by code_simp

subsection \<open>Sequencing and the loops\<close>

lemma io_bind_return [simp]: "io_bind (io_return x) f = f x"
  by (simp add: io_bind_def io_return_def)

lemma io_bind_Inr:
  "io_bind m f s = (Inr r, s') \<longleftrightarrow> (\<exists>x s1. m s = (Inr x, s1) \<and> f x s1 = (Inr r, s'))"
  by (auto simp: io_bind_def split: prod.splits sum.splits)

lemma io_bind_Inl_left: "m s = (Inl e, s1) \<Longrightarrow> io_bind m f s = (Inl e, s1)"
  by (simp add: io_bind_def)

lemma io_bind_Inr_left: "m s = (Inr x, s1) \<Longrightarrow> io_bind m f s = f x s1"
  by (simp add: io_bind_def)

lemma io_return_Inr: "io_return x s = (Inr r, s') \<longleftrightarrow> r = x \<and> s' = s"
  by (auto simp: io_return_def)

lemma io_lift_Inr: "io_lift f s = (Inr r, s') \<longleftrightarrow> f s = (r, s')"
  by (auto simp: io_lift_def split: prod.splits)

lemma io_bind_cong_result:
  assumes "\<And>x s1. m s = (Inr x, s1) \<Longrightarrow> f x s1 = g x s1"
  shows "io_bind m f s = io_bind m g s"
  using assms by (auto simp: io_bind_def split: prod.splits sum.splits)

lemma on_disk_Inr: "on_disk f s = (Inr u, s') \<longleftrightarrow> (\<exists>fs'. f (disk s) = Inr fs' \<and> s' = s\<lparr>disk := fs'\<rparr>)"
  by (auto simp: on_disk_def split: sum.splits)

lemma files_loop_sum:
  "fst (files_loop E out pb files a s) = a + sum_list (successes (file_outcomes E out pb files s))"
  by (induction files arbitrary: a s) (auto split: prod.splits sum.splits)

lemma dirs_loop_sum:
  "fst (dirs_loop snap E src pwd out d dirs a s) =
     a + sum_list (returned_totals (dir_outcomes snap E src pwd out d dirs s))"
  by (induction dirs arbitrary: a s) (auto split: prod.splits sum.splits)

lemma returned_totals_unfailed:
  "\<forall>dir_size e. Row_raised dir_size e \<notin> set outcomes \<Longrightarrow>
     returned_totals outcomes = unfailed_totals outcomes"
proof (induction outcomes)
  case Nil
  show ?case by simp
next
  case (Cons outcome outcomes)
  then show ?case by (cases outcome) auto
qed

lemma dirs_loop_unfailed_sum:
  assumes "\<forall>dir_size e. Row_raised dir_size e \<notin> set (dir_outcomes snap E src pwd out d dirs s)"
  shows "fst (dirs_loop snap E src pwd out d dirs a s) =
     a + sum_list (unfailed_totals (dir_outcomes snap E src pwd out d dirs s))"
  using dirs_loop_sum [of snap E src pwd out d dirs a s] returned_totals_unfailed [OF assms]
  by simp

lemma length_file_outcomes: "length (file_outcomes E out pb files s) = length files"
  by (induction files arbitrary: s) (auto split: prod.splits sum.splits)

lemma length_dir_outcomes: "length (dir_outcomes snap E src pwd out d dirs s) = length dirs"
  by (induction dirs arbitrary: s) (auto split: prod.splits sum.splits)

lemma length_symlink_outcomes: "length (symlink_outcomes E out pb symlinks s) = length symlinks"
  by (induction symlinks arbitrary: s) (auto split: prod.splits sum.splits)

lemma dirs_loop_cong:
  assumes "\<And>entry t. entry \<in> set dirs \<Longrightarrow>
             snap (joinpath src (name entry)) pwd (d - 1) t = snap' (joinpath src (name entry)) pwd (d - 1) t"
  shows "dirs_loop snap E src pwd out d dirs a s = dirs_loop snap' E src pwd out d dirs a s"
  using assms by (induction dirs arbitrary: a s) (auto split: prod.splits sum.splits)

lemma dir_outcomes_cong:
  assumes "\<And>entry t. entry \<in> set dirs \<Longrightarrow>
             snap (joinpath src (name entry)) pwd (d - 1) t = snap' (joinpath src (name entry)) pwd (d - 1) t"
  shows "dir_outcomes snap E src pwd out d dirs s = dir_outcomes snap' E src pwd out d dirs s"
  using assms by (induction dirs arbitrary: s) (auto split: prod.splits sum.splits)

subsection \<open>What an append leaves in the file\<close>

lemma read_text_update: "read_text (AList.update p (File c) fs) q = (if q = p then Some c else read_text fs q)"
  by (simp add: read_text_def update_conv')

lemma append_text_content:
  "append_text p t fs = Inr fs' \<Longrightarrow>
     read_text fs' p = Some ((case read_text fs p of None \<Rightarrow> [] | Some c \<Rightarrow> c) @ t)"
  by (auto simp: append_text_def read_text_update split: option.splits)

lemma append_text_to_file_content:
  "append_text_to_file E p t s = (Inr u, s') \<Longrightarrow>
     read_text (disk s') p = Some ((case read_text (disk s) p of None \<Rightarrow> [] | Some c \<Rightarrow> c) @ t)"
  by (auto simp: append_text_to_file_def on_disk_Inr dest: append_text_content split: option.splits)

lemma update_bar_disk: "update_bar pb s = (r, s') \<Longrightarrow> disk s' = disk s \<and> r = Inr ()"
  by (auto simp: update_bar_def)

lemma write_footer_content:
  assumes "write_footer E out pb v s = (Inr r, s')"
  shows "r = v \<and> (\<exists>text. read_text (disk s') out =
           Some (text @ template_table_footer E (round_file_size_to_human_friendly_units E v)))"
  using assms
  by (auto simp: write_footer_def Let_def io_bind_Inr io_return_Inr
        dest!: append_text_to_file_content update_bar_disk)

lemma write_text_content:
  assumes "write_text p t fs = Inr fs'"
  shows "map_of fs' q = (if q = p then Some (File t) else map_of fs q)"
  using assms by (auto simp: write_text_def update_conv' split: option.splits)

subsection \<open>The classification and the tables\<close>

lemma categorize_filter:
  "categorize fs entries (symlinks, files, dirs) =
     (symlinks @ filter (\<lambda>e. \<not> is_dir fs e \<and> is_symlink fs e) entries,
      files @ filter (\<lambda>e. \<not> is_dir fs e \<and> \<not> is_symlink fs e) entries,
      dirs @ filter (is_dir fs) entries)"
  by (induction entries arbitrary: symlinks files dirs) auto

lemma open_dirs_table_result:
  assumes "open_dirs_table E out d dirs s = (Inr dirs', s')"
  shows "dirs' = (if d = 0 then [] else dirs)"
  using assms
  by (auto simp: open_dirs_table_def io_bind_Inr io_return_Inr split: if_splits)

lemma write_files_table_sum:
  assumes "write_files_table E out pb files a s1 = (Inr subtotal, s3)"
  shows "\<exists>s2. open_files_table E out files s1 = (Inr (), s2)
           \<and> subtotal = a + sum_list (successes (file_outcomes E out pb files s2))"
proof -
  from assms obtain s2 x s2' where o: "open_files_table E out files s1 = (Inr (), s2)"
    and l: "files_loop E out pb files a s2 = (x, s2')"
    and c: "append_text_to_file E out (template_table_close E) s2' = (Inr (), s3)"
    and r: "subtotal = x"
    by (auto simp: write_files_table_def io_bind_Inr io_lift_Inr io_return_Inr)
  from l have "x = a + sum_list (successes (file_outcomes E out pb files s2))"
    using files_loop_sum [of E out pb files a s2] by simp
  with o r show ?thesis by blast
qed

lemma write_dirs_table_sum:
  assumes "write_dirs_table snap E src pwd out d dirs a s3 = (Inr v, s5)"
  shows "\<exists>dirs' s4. open_dirs_table E out d dirs s3 = (Inr dirs', s4)
           \<and> v = a + sum_list (returned_totals (dir_outcomes snap E src pwd out d dirs' s4))"
proof -
  from assms obtain dirs' s4 x s4' where o: "open_dirs_table E out d dirs s3 = (Inr dirs', s4)"
    and l: "dirs_loop snap E src pwd out d dirs' a s4 = (x, s4')"
    and r: "v = x"
    by (auto simp: write_dirs_table_def io_bind_Inr io_lift_Inr io_return_Inr)
  from l have "x = a + sum_list (returned_totals (dir_outcomes snap E src pwd out d dirs' s4))"
    using dirs_loop_sum [of snap E src pwd out d dirs' a s4] by simp
  with o r show ?thesis by blast
qed

lemma depth_zero_table:
  assumes "write_dirs_table snap E src pwd out 0 dirs a s = (Inr v, s')" and "dirs \<noteq> []"
  shows "v = a"
    and "\<exists>doc. read_text (disk s') out =
           Some (doc @ (''Recursion depth limit reached!'' @ newline) @ template_table_close E)"
proof -
  from assms obtain s1 s2 where h: "append_text_to_file E out (template_dirs_table_header E) s = (Inr (), s1)"
    and m: "append_text_to_file E out (''Recursion depth limit reached!'' @ newline) s1 = (Inr (), s2)"
    and c: "append_text_to_file E out (template_table_close E) s2 = (Inr (), s')"
    and v: "v = a"
    by (auto simp: write_dirs_table_def open_dirs_table_def io_bind_Inr io_lift_Inr io_return_Inr)
  show "v = a" by (rule v)
  from append_text_to_file_content [OF m] obtain doc
    where "read_text (disk s2) out = Some (doc @ ''Recursion depth limit reached!'' @ newline)"
    by blast
  with append_text_to_file_content [OF c]
  show "\<exists>doc. read_text (disk s') out =
           Some (doc @ (''Recursion depth limit reached!'' @ newline) @ template_table_close E)"
    by simp
qed

lemma write_dirs_table_cong:
  assumes "\<And>entry t. entry \<in> set dirs \<Longrightarrow> d \<noteq> 0 \<Longrightarrow>
             snap (joinpath src (name entry)) pwd (d - 1) t = snap' (joinpath src (name entry)) pwd (d - 1) t"
  shows "write_dirs_table snap E src pwd out d dirs a s = write_dirs_table snap' E src pwd out d dirs a s"
  unfolding write_dirs_table_def
proof (rule io_bind_cong_result)
  fix dirs' s1
  assume "open_dirs_table E out d dirs s = (Inr dirs', s1)"
  from open_dirs_table_result [OF this] have dirs': "dirs' = (if d = 0 then [] else dirs)" .
  have "dirs_loop snap E src pwd out d dirs' a = dirs_loop snap' E src pwd out d dirs' a"
  proof (rule ext, rule dirs_loop_cong)
    fix entry t
    assume "entry \<in> set dirs'"
    with dirs' have "entry \<in> set dirs" "d \<noteq> 0"
      by (auto split: if_splits)
    then show "snap (joinpath src (name entry)) pwd (d - 1) t = snap' (joinpath src (name entry)) pwd (d - 1) t"
      by (rule assms)
  qed
  then show "io_bind (io_lift (dirs_loop snap E src pwd out d dirs' a))
          (\<lambda>source_path_size. io_bind (append_text_to_file E out (template_table_close E))
             (\<lambda>_. io_return source_path_size)) s1
      = io_bind (io_lift (dirs_loop snap' E src pwd out d dirs' a))
          (\<lambda>source_path_size. io_bind (append_text_to_file E out (template_table_close E))
             (\<lambda>_. io_return source_path_size)) s1"
    by simp
qed

lemma write_report_cong:
  assumes "\<And>n t. d \<noteq> 0 \<Longrightarrow> snap (joinpath src n) pwd (d - 1) t = snap' (joinpath src n) pwd (d - 1) t"
  shows "write_report snap E src pwd out pb is d contents s = write_report snap' E src pwd out pb is d contents s"
proof -
  have "write_dirs_table snap E src pwd out d dirs a = write_dirs_table snap' E src pwd out d dirs a"
    for dirs a
    by (rule ext, rule write_dirs_table_cong) (rule assms)
  then show ?thesis
    unfolding write_report_def by simp
qed

lemma snapshot_body_cong:
  assumes "\<And>n t. d \<noteq> 0 \<Longrightarrow>
     snap (joinpath src n) (joinpath dest (name src)) (d - 1) t
   = snap' (joinpath src n) (joinpath dest (name src)) (d - 1) t"
  shows "snapshot_body snap E src dest pb ih is d s = snapshot_body snap' E src dest pb ih is d s"
proof -
  have "write_report snap E src (joinpath dest (name src)) out pb is d contents
      = write_report snap' E src (joinpath dest (name src)) out pb is d contents" for out contents
    by (rule ext, rule write_report_cong) (rule assms)
  then show ?thesis
    unfolding snapshot_body_def Let_def by simp
qed

lemma descent_step_zero:
  assumes "d = 0"
  shows "get_snapshot (Suc k) E src dest pb ih is d s = get_snapshot (Suc k') E src dest pb ih is d s"
  unfolding get_snapshot.simps
  by (rule snapshot_body_cong) (simp add: assms)

lemma descent_step:
  assumes "\<And>a b t. get_snapshot k E a b pb ih is (d - 1) t = get_snapshot k' E a b pb ih is (d - 1) t"
  shows "get_snapshot (Suc k) E src dest pb ih is d s = get_snapshot (Suc k') E src dest pb ih is d s"
  unfolding get_snapshot.simps
  by (rule snapshot_body_cong) (rule assms)

lemma bounded_descent:
  assumes "0 \<le> d" and "nat d < limit" and "nat d < limit'"
  shows "get_snapshot limit E src dest pb ih is d s = get_snapshot limit' E src dest pb ih is d s"
  using assms
proof (induction "nat d" arbitrary: d limit limit' src dest s)
  case 0
  from "0.prems" obtain k k' where l: "limit = Suc k" "limit' = Suc k'"
    by (cases limit; cases limit') auto
  from 0 have "d = 0" by simp
  then show ?case
    unfolding l by (rule descent_step_zero)
next
  case (Suc n)
  from Suc.prems obtain k k' where l: "limit = Suc k" "limit' = Suc k'"
    by (cases limit; cases limit') auto
  have "get_snapshot k E a b pb ih is (d - 1) t = get_snapshot k' E a b pb ih is (d - 1) t" for a b t
  proof (rule Suc.hyps(1))
    show "n = nat (d - 1)" using Suc.hyps(2) by simp
    show "0 \<le> d - 1" using Suc.hyps(2) by simp
    show "nat (d - 1) < k" using Suc.prems(2) Suc.hyps(2) l by simp
    show "nat (d - 1) < k'" using Suc.prems(3) Suc.hyps(2) l by simp
  qed
  then show ?case
    unfolding l by (rule descent_step)
qed

subsection \<open>From the call to the report\<close>

lemma get_snapshot_report:
  assumes run: "get_snapshot (Suc limit) E src_path dest_path progress_bar ignore_hidden
                  ignore_symlinks max_rec_depth s = (Inr v, s')"
    and guard: "Some src_path \<noteq> dest_path_root E"
    and pwd: "pwd = joinpath dest_path (name src_path)"
    and out: "out = joinpath pwd (name src_path @ ''.html'')"
    and reset: "reset_mirror pwd out s = (r0, s0)"
    and listing: "list_dir_contents E src_path ignore_symlinks ignore_hidden (disk s0) = Some contents"
  shows "write_report
           (\<lambda>a b c. get_snapshot limit E a b progress_bar ignore_hidden ignore_symlinks c)
           E src_path pwd out progress_bar ignore_symlinks max_rec_depth (sort contents) s0 = (Inr v, s')"
  using run guard reset listing unfolding get_snapshot.simps snapshot_body_def Let_def pwd out
  by (auto simp: io_bind_Inr)

lemma write_report_total:
  assumes rep: "write_report snap E src_path pwd out progress_bar ignore_symlinks max_rec_depth
                  contents s = (Inr v, s')"
    and cat: "categorize (disk s) contents ([], [], []) = (symlinks, files, dirs)"
  shows "\<exists>s1 s2 subtotal s3 dirs' s4 doc.
      on_disk (write_text out (template_html_header E (escape_html_special_chars E (name src_path) False))) s
        = (Inr (), s1)
    \<and> open_files_table E out files s1 = (Inr (), s2)
    \<and> write_files_table E out progress_bar files 0 s1 = (Inr subtotal, s3)
    \<and> open_dirs_table E out max_rec_depth dirs s3 = (Inr dirs', s4)
    \<and> v = sum_list (successes (file_outcomes E out progress_bar files s2))
          + sum_list (returned_totals (dir_outcomes snap E src_path pwd out max_rec_depth dirs' s4))
    \<and> read_text (disk s') out =
          Some (doc @ template_table_footer E (round_file_size_to_human_friendly_units E v))"
proof -
  from rep obtain s1 subtotal s3 v2 s5 s6
    where h: "on_disk (write_text out (template_html_header E (escape_html_special_chars E (name src_path) False))) s
               = (Inr (), s1)"
      and f: "write_files_table E out progress_bar files 0 s1 = (Inr subtotal, s3)"
      and d: "write_dirs_table snap E src_path pwd out max_rec_depth dirs subtotal s3 = (Inr v2, s5)"
      and l: "write_symlinks_table E out progress_bar ignore_symlinks symlinks s5 = (Inr (), s6)"
      and t: "write_footer E out progress_bar v2 s6 = (Inr v, s')"
    unfolding write_report_def using cat by (auto simp: Let_def io_bind_Inr)
  from write_files_table_sum [OF f] obtain s2
    where o: "open_files_table E out files s1 = (Inr (), s2)"
      and fs: "subtotal = sum_list (successes (file_outcomes E out progress_bar files s2))"
    by auto
  from write_dirs_table_sum [OF d] obtain dirs' s4
    where od: "open_dirs_table E out max_rec_depth dirs s3 = (Inr dirs', s4)"
      and ds: "v2 = subtotal + sum_list (returned_totals (dir_outcomes snap E src_path pwd out max_rec_depth dirs' s4))"
    by auto
  from write_footer_content [OF t] obtain doc
    where v: "v = v2"
      and foot: "read_text (disk s') out =
          Some (doc @ template_table_footer E (round_file_size_to_human_friendly_units E v2))"
    by auto
  show ?thesis using h o f od fs ds v foot by blast
qed

subsection \<open>Removing and creating directories\<close>

lemma map_of_filter_keys:
  "map_of (filter (\<lambda>(k, v). P k) xs) k = (if P k then map_of xs k else None)"
  by (induction xs) auto

lemma rmtree_removed:
  assumes "rmtree p fs = Inr fs'" and "prefix p q"
  shows "map_of fs' q = None"
  using assms by (auto simp: rmtree_def map_of_filter_keys split: option.splits node.splits)

lemma rmtree_result:
  assumes "rmtree p fs = Inr fs'"
  shows "fs' = filter (\<lambda>(q, n). \<not> prefix p q) fs"
  using assms by (auto simp: rmtree_def split: option.splits node.splits)

lemma mkdir_from_frame:
  assumes "mkdir_from cur p fs = Inr fs'" and "\<not> prefix q (cur @ p)"
  shows "map_of fs' q = map_of fs q"
  using assms
proof (induction p arbitrary: cur fs)
  case Nil
  then show ?case by simp
next
  case (Cons c cs)
  have ne: "q \<noteq> cur @ [c]"
    using Cons.prems(2) by auto
  show ?case
  proof (cases "map_of fs (cur @ [c])")
    case None
    with Cons.prems have "mkdir_from (cur @ [c]) cs (fs @ [(cur @ [c], Dir)]) = Inr fs'"
      by simp
    from Cons.IH [OF this] Cons.prems(2) have "map_of fs' q = map_of (fs @ [(cur @ [c], Dir)]) q"
      by simp
    also have "\<dots> = map_of fs q"
      using ne by (simp add: map_add_def split: option.splits)
    finally show ?thesis .
  next
    case (Some n)
    with Cons.prems Cons.IH [of "cur @ [c]" fs] show ?thesis
      by (cases n) (auto split: if_splits)
  qed
qed

lemma mkdir_from_keeps:
  assumes "mkdir_from cur p fs = Inr fs'" and "map_of fs q = Some n"
  shows "map_of fs' q = Some n"
  using assms
proof (induction p arbitrary: cur fs)
  case Nil
  then show ?case by simp
next
  case (Cons c cs)
  show ?case
  proof (cases "map_of fs (cur @ [c])")
    case None
    with Cons.prems have "mkdir_from (cur @ [c]) cs (fs @ [(cur @ [c], Dir)]) = Inr fs'"
      by simp
    moreover have "map_of (fs @ [(cur @ [c], Dir)]) q = Some n"
      using Cons.prems(2) by (simp add: map_add_def)
    ultimately show ?thesis by (rule Cons.IH)
  next
    case (Some m)
    with Cons.prems Cons.IH [of "cur @ [c]" fs] show ?thesis
      by (cases m) (auto split: if_splits)
  qed
qed

lemma mkdir_from_dirs:
  assumes "mkdir_from cur p fs = Inr fs'"
    and "\<And>t. map_of fs (cur @ p) \<noteq> Some (Symlink t)"
    and "prefix r p" and "r \<noteq> []"
  shows "map_of fs' (cur @ r) = Some Dir"
  using assms
proof (induction p arbitrary: cur fs r)
  case Nil
  then show ?case by simp
next
  case (Cons c cs)
  from Cons.prems(3,4) obtain r' where r: "r = c # r'" and r': "prefix r' cs"
    by (cases r) auto
  show ?case
  proof (cases "map_of fs (cur @ [c])")
    case None
    let ?fs = "fs @ [(cur @ [c], Dir)]"
    from None Cons.prems have m: "mkdir_from (cur @ [c]) cs ?fs = Inr fs'"
      by simp
    have here: "map_of ?fs (cur @ [c]) = Some Dir"
      using None by (simp add: map_add_def)
    show ?thesis
    proof (cases "r' = []")
      case True
      with r here mkdir_from_keeps [OF m] show ?thesis by simp
    next
      case False
      then have "cs \<noteq> []" using r' by auto
      then have "\<And>t. map_of ?fs ((cur @ [c]) @ cs) \<noteq> Some (Symlink t)"
        using Cons.prems(2) by (auto simp: map_add_def split: option.splits)
      from Cons.IH [OF m this r' False] r show ?thesis by simp
    qed
  next
    case (Some n)
    show ?thesis
    proof (cases n)
      case (File x)
      with Some Cons.prems show ?thesis by simp
    next
      case Dir
      with Some Cons.prems have m: "mkdir_from (cur @ [c]) cs fs = Inr fs'"
        by simp
      show ?thesis
      proof (cases "r' = []")
        case True
        with r Some Dir mkdir_from_keeps [OF m] show ?thesis by simp
      next
        case False
        have "\<And>t. map_of fs ((cur @ [c]) @ cs) \<noteq> Some (Symlink t)"
          using Cons.prems(2) by simp
        from Cons.IH [OF m this r' False] r show ?thesis by simp
      qed
    next
      case (Symlink t)
      with Some Cons.prems show ?thesis by (auto split: if_splits)
    qed
  qed
qed

lemma walk_through_dirs:
  assumes "\<And>r. prefix r p \<Longrightarrow> r \<noteq> [] \<Longrightarrow> map_of fs (cur @ r) = Some Dir"
  shows "walk fs n cur (p @ rest) = walk fs n (cur @ p) rest"
  using assms
proof (induction p arbitrary: cur)
  case Nil
  then show ?case by simp
next
  case (Cons c cs)
  have "map_of fs (cur @ [c]) = Some Dir"
    using Cons.prems [of "[c]"] by simp
  moreover have "walk fs n (cur @ [c]) (cs @ rest) = walk fs n ((cur @ [c]) @ cs) rest"
  proof (rule Cons.IH)
    fix r assume "prefix r cs" "r \<noteq> []"
    then show "map_of fs ((cur @ [c]) @ r) = Some Dir"
      using Cons.prems [of "c # r"] by simp
  qed
  ultimately show ?case by simp
qed

lemma mkdir_is_dir:
  assumes "mkdir p fs = Inr fs'" and "map_of fs p = None"
  shows "node_at fs' p = Some Dir"
proof (cases "p = []")
  case True
  then show ?thesis by (simp add: node_at_def)
next
  case False
  with mkdir_from_dirs [of "[]" p fs fs' p] assms show ?thesis
    by (simp add: mkdir_def node_at_def)
qed

lemma mkdir_ancestors:
  assumes "mkdir p fs = Inr fs'" and "map_of fs p = None" and "prefix r p" and "r \<noteq> []"
  shows "map_of fs' r = Some Dir"
  using mkdir_from_dirs [of "[]" p fs fs' r] assms by (simp add: mkdir_def)

lemma touch_fresh:
  assumes dirs: "\<And>r. prefix r p \<Longrightarrow> r \<noteq> [] \<Longrightarrow> map_of fs r = Some Dir"
    and absent: "map_of fs (p @ [x]) = None"
    and t: "touch (p @ [x]) fs = Inr fs'"
  shows "fs' = AList.update (p @ [x]) (File []) fs"
proof -
  have "walk fs symlink_limit [] (p @ [x]) = walk fs symlink_limit ([] @ p) [x]"
    by (rule walk_through_dirs) (simp add: dirs)
  with absent have "\<not> exists fs (p @ [x])"
    by (simp add: exists_def stat_def realpath_def)
  with t show ?thesis
    by (auto simp: touch_def split: option.splits)
qed

subsection \<open>The reset of the mirror directory and the guard\<close>

lemma reset_mirror_steps:
  assumes "exists (disk s) pwd" and "reset_mirror pwd out s = (Inr u, s0)"
  obtains fs1 fs2 fs3 where "rmtree pwd (disk s) = Inr fs1" and "mkdir pwd fs1 = Inr fs2"
    and "touch out fs2 = Inr fs3" and "s0 = s\<lparr>disk := fs3\<rparr>"
  using assms
  by (auto simp: reset_mirror_def io_bind_Inr on_disk_Inr)

lemma reset_mirror_fresh:
  assumes ex: "exists (disk s) pwd" and run: "reset_mirror pwd (pwd @ [x]) s = (Inr u, s0)"
  shows "node_at (disk s0) pwd = Some Dir"
    and "strict_prefix pwd q \<Longrightarrow>
           map_of (disk s0) q = (if q = pwd @ [x] then Some (File []) else None)"
    and "stdout s0 = stdout s" and "bar_n s0 = bar_n s"
proof -
  from ex run obtain fs1 fs2 fs3 where rm: "rmtree pwd (disk s) = Inr fs1"
    and mk: "mkdir pwd fs1 = Inr fs2" and to: "touch (pwd @ [x]) fs2 = Inr fs3"
    and s0: "s0 = s\<lparr>disk := fs3\<rparr>"
    by (rule reset_mirror_steps)
  have gone: "map_of fs1 q = None" if "prefix pwd q" for q
    using rmtree_removed [OF rm that] .
  have dir: "node_at fs2 pwd = Some Dir"
    using mkdir_is_dir [OF mk] gone by simp
  have below: "map_of fs2 q = None" if "strict_prefix pwd q" for q
  proof -
    from that have "\<not> prefix q ([] @ pwd)"
      by (auto simp: strict_prefix_def)
    from mkdir_from_frame [OF mk [unfolded mkdir_def] this] gone [of q] that
    show ?thesis by (simp add: strict_prefix_def)
  qed
  have fs3: "fs3 = AList.update (pwd @ [x]) (File []) fs2"
  proof (rule touch_fresh [OF _ _ to])
    fix r assume "prefix r pwd" "r \<noteq> []"
    then show "map_of fs2 r = Some Dir"
      using mkdir_ancestors [OF mk] gone by simp
  next
    show "map_of fs2 (pwd @ [x]) = None"
      by (rule below) (simp add: strict_prefix_def)
  qed
  show "stdout s0 = stdout s" "bar_n s0 = bar_n s"
    using s0 by simp_all
  show "node_at (disk s0) pwd = Some Dir"
    using dir s0 fs3 by (auto simp: node_at_def update_conv')
  show "map_of (disk s0) q = (if q = pwd @ [x] then Some (File []) else None)"
    if "strict_prefix pwd q"
    using that below s0 fs3 by (simp add: update_conv')
qed

lemma out_file_path_below: "joinpath pwd (n @ ''.html'') = pwd @ [n @ ''.html'']"
  by (simp add: joinpath_def)

lemma state_eqI:
  "disk s = disk t \<Longrightarrow> stdout s = stdout t \<Longrightarrow> bar_n s = bar_n t \<Longrightarrow> s = (t::state)"
  by (cases s, cases t) simp

lemma reset_mirror_forgets:
  assumes "exists (disk s) pwd" and "exists (disk t) pwd"
    and "node_at (disk s) pwd = Some Dir" and "node_at (disk t) pwd = Some Dir"
    and "filter (\<lambda>(q, n). \<not> prefix pwd q) (disk s) = filter (\<lambda>(q, n). \<not> prefix pwd q) (disk t)"
    and "stdout s = stdout t" and "bar_n s = bar_n t"
  shows "reset_mirror pwd out s = reset_mirror pwd out t"
proof -
  let ?rest = "io_bind (on_disk (mkdir pwd)) (\<lambda>_. on_disk (touch out))"
  have eq: "s\<lparr>disk := filter (\<lambda>(q, n). \<not> prefix pwd q) (disk s)\<rparr>
      = t\<lparr>disk := filter (\<lambda>(q, n). \<not> prefix pwd q) (disk t)\<rparr>"
    using assms by (intro state_eqI) simp_all
  have "reset_mirror pwd out s = ?rest (s\<lparr>disk := filter (\<lambda>(q, n). \<not> prefix pwd q) (disk s)\<rparr>)"
    using assms(1,3) by (simp add: reset_mirror_def io_bind_def on_disk_def rmtree_def)
  moreover
  have "reset_mirror pwd out t = ?rest (t\<lparr>disk := filter (\<lambda>(q, n). \<not> prefix pwd q) (disk t)\<rparr>)"
    using assms(2,4) by (simp add: reset_mirror_def io_bind_def on_disk_def rmtree_def)
  ultimately show ?thesis
    by (simp only: eq)
qed

lemma reset_mirror_log:
  assumes "reset_mirror pwd out s = (r, s')"
  shows "stdout s' = stdout s" and "bar_n s' = bar_n s"
  using assms
  by (auto simp: reset_mirror_def io_bind_def on_disk_def io_return_def
        split: sum.splits if_splits prod.splits)

lemma guard_run:
  assumes guard: "dest_path_root E = Some src_path"
    and pwd: "pwd = joinpath dest_path (name src_path)"
    and out: "out = joinpath pwd (name src_path @ ''.html'')"
  shows "get_snapshot (Suc limit) E src_path dest_path progress_bar ignore_hidden ignore_symlinks
           max_rec_depth s =
         io_bind (reset_mirror pwd out) (\<lambda>_.
         io_bind (\<lambda>s. (Inr (), print (Text ''Original destination path reached!!'') s)) (\<lambda>_.
         io_bind (on_disk (write_text out marker)) (\<lambda>_. io_return (- 1)))) s"
  unfolding get_snapshot.simps snapshot_body_def Let_def pwd [symmetric] out [symmetric]
  using guard by simp

lemma guard_leaves_fresh_mirror:
  assumes guard: "dest_path_root E = Some src_path"
    and pwd: "pwd = joinpath dest_path (name src_path)"
    and out: "out = joinpath pwd (name src_path @ ''.html'')"
    and ex: "exists (disk s) pwd"
    and run: "get_snapshot (Suc limit) E src_path dest_path progress_bar ignore_hidden
                ignore_symlinks max_rec_depth s = (Inr v, s')"
  shows "node_at (disk s') pwd = Some Dir"
    and "strict_prefix pwd q \<Longrightarrow>
           map_of (disk s') q = (if q = out then Some (File marker) else None)"
proof -
  from run obtain s1 fs' where r: "reset_mirror pwd out s = (Inr (), s1)"
    and w: "write_text out marker (disk (print (Text ''Original destination path reached!!'') s1)) = Inr fs'"
    and s': "s' = (print (Text ''Original destination path reached!!'') s1)\<lparr>disk := fs'\<rparr>"
    unfolding guard_run [OF guard pwd out]
    by (auto simp: io_bind_Inr on_disk_Inr io_return_Inr)
  have o: "out = pwd @ [name src_path @ ''.html'']"
    by (simp add: out out_file_path_below)
  note fresh = reset_mirror_fresh [OF ex r [unfolded o]]
  have w': "write_text out marker (disk s1) = Inr fs'"
    using w by (simp add: print_def)
  have d: "disk s' = fs'"
    using s' by simp
  show "node_at (disk s') pwd = Some Dir"
    using fresh(1) write_text_content [OF w', of pwd] d o by (auto simp: node_at_def)
  show "map_of (disk s') q = (if q = out then Some (File marker) else None)"
    if "strict_prefix pwd q"
    using fresh(2) [OF that] write_text_content [OF w', of q] d o by auto
qed

subsection \<open>The lines printed\<close>

lemma growsI: "(\<And>s r s'. m s = (r, s') \<Longrightarrow> prefix (stdout s) (stdout s')) \<Longrightarrow> grows m"
  by (simp add: grows_def)

lemma growsD: "grows m \<Longrightarrow> m s = (r, s') \<Longrightarrow> prefix (stdout s) (stdout s')"
  by (simp add: grows_def)

lemma grows_return: "grows (io_return x)"
  by (simp add: grows_def io_return_def)

lemma grows_raise: "grows (io_raise e)"
  by (simp add: grows_def io_raise_def)

lemma grows_bind:
  assumes "grows m" and "\<And>x. grows (f x)"
  shows "grows (io_bind m f)"
proof (rule growsI)
  fix s r s'
  assume run: "io_bind m f s = (r, s')"
  obtain r1 s1 where m: "m s = (r1, s1)"
    by (cases "m s")
  show "prefix (stdout s) (stdout s')"
  proof (cases r1)
    case (Inl e)
    with run m have "s' = s1"
      by (simp add: io_bind_def)
    with growsD [OF assms(1) m] show ?thesis by simp
  next
    case (Inr x)
    with run m have "f x s1 = (r, s')"
      by (simp add: io_bind_def)
    from growsD [OF assms(2) this] growsD [OF assms(1) m] show ?thesis
      by (rule prefix_order.order_trans [rotated])
  qed
qed

lemma on_disk_log: "on_disk f s = (r, s') \<Longrightarrow> stdout s' = stdout s"
  by (auto simp: on_disk_def split: sum.splits)

lemma append_text_to_file_log: "append_text_to_file E p t s = (r, s') \<Longrightarrow> stdout s' = stdout s"
  by (auto simp: append_text_to_file_def dest: on_disk_log split: option.splits)

lemma update_bar_log: "update_bar pb s = (r, s') \<Longrightarrow> stdout s' = stdout s"
  by (auto simp: update_bar_def)

lemma grows_on_disk: "grows (on_disk f)"
  by (rule growsI) (simp add: on_disk_log)

lemma grows_append: "grows (append_text_to_file E p t)"
  by (rule growsI) (simp add: append_text_to_file_log)

lemma grows_update_bar: "grows (update_bar pb)"
  by (rule growsI) (simp add: update_bar_log)

lemma io_bind_log:
  assumes "\<And>s r s'. m s = (r, s') \<Longrightarrow> stdout s' = stdout s"
    and "\<And>x s r s'. f x s = (r, s') \<Longrightarrow> stdout s' = stdout s"
    and "io_bind m f s = (r, s')"
  shows "stdout s' = stdout s"
proof -
  obtain r1 s1 where m: "m s = (r1, s1)"
    by (cases "m s")
  show ?thesis
  proof (cases r1)
    case (Inl e)
    with assms(3) m have "s' = s1" by (simp add: io_bind_def)
    with assms(1) [OF m] show ?thesis by simp
  next
    case (Inr x)
    with assms(3) m have "f x s1 = (r, s')" by (simp add: io_bind_def)
    from assms(2) [OF this] assms(1) [OF m] show ?thesis by simp
  qed
qed

lemma write_file_entry_log:
  assumes "write_file_entry E entry out pb s = (r, s')"
  shows "stdout s' = stdout s"
  using assms unfolding write_file_entry_def Let_def
  by (elim io_bind_log [rotated 2])
     (auto simp: io_return_def dest: append_text_to_file_log update_bar_log)

lemma write_dir_entry_log:
  assumes "write_dir_entry E entry v out s = (r, s')"
  shows "stdout s' = stdout s"
  using assms unfolding write_dir_entry_def Let_def
  by (rule append_text_to_file_log)

lemma write_symlink_entry_log:
  assumes "write_symlink_entry E entry out pb s = (r, s')"
  shows "stdout s' = stdout s"
  using assms unfolding write_symlink_entry_def Let_def
  by (elim io_bind_log [rotated 2])
     (auto simp: io_return_def dest: append_text_to_file_log update_bar_log)

lemma files_loop_log:
  "stdout (snd (files_loop E out pb files a s))
     = stdout s @ map (\<lambda>(entry, e). Error_file entry e) (failures files (file_outcomes E out pb files s))"
proof (induction files arbitrary: a s)
  case Nil
  then show ?case by simp
next
  case (Cons entry rest)
  obtain r s1 where w: "write_file_entry E entry out pb s = (r, s1)"
    by (cases "write_file_entry E entry out pb s")
  from write_file_entry_log [OF w] have "stdout s1 = stdout s" .
  with w Cons.IH show ?case
    by (cases r) (simp_all add: print_def)
qed

lemma symlinks_loop_log:
  "stdout (symlinks_loop E out pb symlinks s)
     = stdout s @ map (\<lambda>(entry, e). Error_directory entry e)
         (failures symlinks (symlink_outcomes E out pb symlinks s))"
proof (induction symlinks arbitrary: s)
  case Nil
  then show ?case by simp
next
  case (Cons entry rest)
  obtain r s1 where w: "write_symlink_entry E entry out pb s = (r, s1)"
    by (cases "write_symlink_entry E entry out pb s")
  from write_symlink_entry_log [OF w] have "stdout s1 = stdout s" .
  with w Cons.IH show ?case
    by (cases r) (simp_all add: print_def)
qed

lemma dirs_loop_grows:
  assumes "\<forall>a b c. grows (snap a b c)"
  shows "prefix (stdout s) (stdout (snd (dirs_loop snap E src pwd out d dirs a s)))"
proof (induction dirs arbitrary: a s)
  case Nil
  then show ?case by simp
next
  case (Cons entry rest)
  obtain r s1 where c: "snap (joinpath src (name entry)) pwd (d - 1) s = (r, s1)"
    by (cases "snap (joinpath src (name entry)) pwd (d - 1) s")
  from assms have "grows (snap (joinpath src (name entry)) pwd (d - 1))"
    by blast
  from growsD [OF this c] have p1: "prefix (stdout s) (stdout s1)" .
  show ?case
  proof (cases r)
    case (Inl e)
    have "prefix (stdout s1) (stdout (print (Error_directory entry e) s1))"
      by (simp add: print_def)
    with p1 Cons.IH [where a = a and s = "print (Error_directory entry e) s1"] c Inl show ?thesis
      by (auto intro: prefix_order.order_trans)
  next
    case (Inr v)
    obtain r2 s2 where w: "write_dir_entry E entry v out s1 = (r2, s2)"
      by (cases "write_dir_entry E entry v out s1")
    from write_dir_entry_log [OF w] p1 have p2: "prefix (stdout s) (stdout s2)"
      by simp
    show ?thesis
    proof (cases r2)
      case (Inl e)
      have "prefix (stdout s2) (stdout (print (Error_directory entry e) s2))"
        by (simp add: print_def)
      with p2 Cons.IH [where a = "a + v" and s = "print (Error_directory entry e) s2"] c w Inr Inl show ?thesis
        by (auto intro: prefix_order.order_trans)
    next
      case (Inr u)
      with p2 Cons.IH [where a = "a + v" and s = s2] c w \<open>r = Inr v\<close> show ?thesis
        by (auto intro: prefix_order.order_trans)
    qed
  qed
qed

lemma dirs_loop_logged:
  assumes "\<forall>a b c. grows (snap a b c)"
    and "(entry, e) \<in> set (dir_failures dirs (dir_outcomes snap E src pwd out d dirs s))"
  shows "Error_directory entry e \<in> set (stdout (snd (dirs_loop snap E src pwd out d dirs a s)))"
  using assms(2)
proof (induction dirs arbitrary: a s)
  case Nil
  then show ?case by simp
next
  case (Cons entry0 rest)
  note grow = dirs_loop_grows [where snap = snap, OF assms(1), where E = E and src = src and pwd = pwd and out = out and d = d and dirs = rest]
  obtain r s1 where c: "snap (joinpath src (name entry0)) pwd (d - 1) s = (r, s1)"
    by (cases "snap (joinpath src (name entry0)) pwd (d - 1) s")
  show ?case
  proof (cases r)
    case (Inl e0)
    let ?s = "print (Error_directory entry0 e0) s1"
    from Cons.prems c Inl
    consider "(entry, e) = (entry0, e0)"
      | "(entry, e) \<in> set (dir_failures rest (dir_outcomes snap E src pwd out d rest ?s))"
      by auto
    then show ?thesis
    proof cases
      case 1
      then have "Error_directory entry e \<in> set (stdout ?s)"
        by (simp add: print_def)
      with grow [where s = "?s" and a = a] c Inl show ?thesis
        by (auto dest: set_mono_prefix)
    next
      case 2
      from Cons.IH [OF this, where a = a] c Inl show ?thesis by simp
    qed
  next
    case (Inr v)
    obtain r2 s2 where w: "write_dir_entry E entry0 v out s1 = (r2, s2)"
      by (cases "write_dir_entry E entry0 v out s1")
    show ?thesis
    proof (cases r2)
      case (Inl e0)
      let ?s = "print (Error_directory entry0 e0) s2"
      from Cons.prems c w Inr Inl
      consider "(entry, e) = (entry0, e0)"
        | "(entry, e) \<in> set (dir_failures rest (dir_outcomes snap E src pwd out d rest ?s))"
        by auto
      then show ?thesis
      proof cases
        case 1
        then have "Error_directory entry e \<in> set (stdout ?s)"
          by (simp add: print_def)
        with grow [where s = "?s" and a = "a + v"] c w Inr Inl show ?thesis
          by (auto dest: set_mono_prefix)
      next
        case 2
        from Cons.IH [OF this, where a = "a + v"] c w Inr Inl show ?thesis by simp
      qed
    next
      case (Inr u)
      with Cons.prems c w \<open>r = Inr v\<close>
      have "(entry, e) \<in> set (dir_failures rest (dir_outcomes snap E src pwd out d rest s2))"
        by simp
      from Cons.IH [OF this, where a = "a + v"] c w Inr \<open>r = Inr v\<close> show ?thesis by simp
    qed
  qed
qed

lemma grows_lift:
  assumes "\<And>s. prefix (stdout s) (stdout (snd (f s)))"
  shows "grows (io_lift f)"
proof (rule growsI)
  fix s r s'
  assume "io_lift f s = (r, s')"
  then have "s' = snd (f s)"
    by (auto simp: io_lift_def split: prod.splits)
  with assms [of s] show "prefix (stdout s) (stdout s')" by simp
qed

lemma grows_if: "grows m \<Longrightarrow> grows n \<Longrightarrow> grows (if b then m else n)"
  by simp

lemma grows_reset_mirror: "grows (reset_mirror pwd out)"
  by (rule growsI) (simp add: reset_mirror_log)

lemma grows_write_files_table: "grows (write_files_table E out pb files a)"
  unfolding write_files_table_def open_files_table_def
  by (intro grows_bind grows_append grows_if grows_return grows_lift) (simp add: files_loop_log)

lemma grows_open_dirs_table: "grows (open_dirs_table E out d dirs)"
  unfolding open_dirs_table_def
  by (intro grows_bind grows_append grows_if grows_return)

lemma grows_write_dirs_table:
  assumes "\<forall>a b c. grows (snap a b c)"
  shows "grows (write_dirs_table snap E src pwd out d dirs a)"
  unfolding write_dirs_table_def
  by (intro grows_bind grows_open_dirs_table grows_append grows_return grows_lift)
     (rule dirs_loop_grows [OF assms])

lemma grows_write_symlinks_table: "grows (write_symlinks_table E out pb is symlinks)"
  unfolding write_symlinks_table_def
  by (intro grows_bind grows_append grows_if grows_return grows_lift) (simp add: symlinks_loop_log)

lemma grows_write_footer: "grows (write_footer E out pb v)"
  unfolding write_footer_def Let_def
  by (intro grows_bind grows_append grows_update_bar grows_return)

lemma grows_write_report:
  assumes "\<forall>a b c. grows (snap a b c)"
  shows "grows (write_report snap E src pwd out pb is d contents)"
proof (rule growsI)
  fix s r s'
  assume run: "write_report snap E src pwd out pb is d contents s = (r, s')"
  obtain symlinks files dirs
    where cat: "categorize (disk s) contents ([], [], []) = (symlinks, files, dirs)"
    by (cases "categorize (disk s) contents ([], [], [])")
  let ?m = "io_bind (on_disk (write_text out
        (template_html_header E (escape_html_special_chars E (name src) False)))) (\<lambda>_.
      io_bind (write_files_table E out pb files 0) (\<lambda>source_path_size.
      io_bind (write_dirs_table snap E src pwd out d dirs source_path_size) (\<lambda>source_path_size.
      io_bind (write_symlinks_table E out pb is symlinks) (\<lambda>_.
      write_footer E out pb source_path_size))))"
  have "grows ?m"
    by (intro grows_bind grows_on_disk grows_write_files_table grows_write_dirs_table [OF assms]
          grows_write_symlinks_table grows_write_footer)
  moreover from run cat have "?m s = (r, s')"
    by (simp add: write_report_def Let_def)
  ultimately show "prefix (stdout s) (stdout s')"
    by (rule growsD)
qed

lemma grows_print: "grows (\<lambda>s. (Inr (), print l s))"
  by (rule growsI) (auto simp: print_def)

lemma grows_read: "grows (\<lambda>s. (Inr (f s), s))"
  by (rule growsI) auto

lemma grows_snapshot_body:
  assumes "\<forall>a b c. grows (snap a b c)"
  shows "grows (snapshot_body snap E src dest pb ih is d)"
  unfolding snapshot_body_def Let_def
  by (intro grows_bind grows_reset_mirror grows_if grows_print grows_on_disk grows_return grows_read)
     (auto split: option.splits intro: grows_return grows_write_report [OF assms])

lemma grows_get_snapshot: "grows (get_snapshot limit E src dest pb ih is d)"
proof (induction limit arbitrary: src dest d)
  case 0
  show ?case by (simp add: grows_raise)
next
  case (Suc limit)
  show ?case
    unfolding get_snapshot.simps
    by (rule grows_snapshot_body) (simp add: Suc.IH)
qed

subsection \<open>The listing collaborator is used for the listing only\<close>

lemma append_text_to_file_lister [simp]:
  "append_text_to_file (E\<lparr>list_dir_contents := L\<rparr>) = append_text_to_file E"
  by (intro ext) (simp add: append_text_to_file_def)

lemma write_file_entry_lister [simp]:
  "write_file_entry (E\<lparr>list_dir_contents := L\<rparr>) = write_file_entry E"
  by (intro ext) (simp add: write_file_entry_def)

lemma write_dir_entry_lister [simp]:
  "write_dir_entry (E\<lparr>list_dir_contents := L\<rparr>) = write_dir_entry E"
  by (intro ext) (simp add: write_dir_entry_def)

lemma write_symlink_entry_lister [simp]:
  "write_symlink_entry (E\<lparr>list_dir_contents := L\<rparr>) = write_symlink_entry E"
  by (intro ext) (simp add: write_symlink_entry_def)

lemma files_loop_lister_at:
  "files_loop (E\<lparr>list_dir_contents := L\<rparr>) out pb files a s = files_loop E out pb files a s"
  by (induction files arbitrary: a s) (auto split: prod.splits sum.splits)

lemma symlinks_loop_lister_at:
  "symlinks_loop (E\<lparr>list_dir_contents := L\<rparr>) out pb symlinks s = symlinks_loop E out pb symlinks s"
  by (induction symlinks arbitrary: s) (auto split: prod.splits sum.splits)

lemma dirs_loop_lister_at:
  "dirs_loop snap (E\<lparr>list_dir_contents := L\<rparr>) src pwd out d dirs a s
     = dirs_loop snap E src pwd out d dirs a s"
  by (induction dirs arbitrary: a s) (auto split: prod.splits sum.splits)

lemma files_loop_lister [simp]: "files_loop (E\<lparr>list_dir_contents := L\<rparr>) = files_loop E"
  by (intro ext) (rule files_loop_lister_at)

lemma symlinks_loop_lister [simp]: "symlinks_loop (E\<lparr>list_dir_contents := L\<rparr>) = symlinks_loop E"
  by (intro ext) (rule symlinks_loop_lister_at)

lemma dirs_loop_lister [simp]: "dirs_loop snap (E\<lparr>list_dir_contents := L\<rparr>) = dirs_loop snap E"
  by (intro ext) (rule dirs_loop_lister_at)

lemma write_report_lister [simp]:
  "write_report snap (E\<lparr>list_dir_contents := L\<rparr>) = write_report snap E"
  by (intro ext) (simp add: write_report_def write_files_table_def open_files_table_def write_dirs_table_def
        open_dirs_table_def write_symlinks_table_def write_footer_def cong: if_cong)

lemma sort_same_entries:
  assumes "mset xs = mset ys"
  shows "sort xs = sort (ys :: path list)"
  by (rule properties_for_sort) (simp_all add: assms)

lemma snapshot_body_lister:
  assumes "\<forall>p a b fs. rel_option (\<lambda>xs ys. mset xs = mset ys) (L p a b fs) (L' p a b fs)"
  shows "snapshot_body snap (E\<lparr>list_dir_contents := L\<rparr>) src dest pb ih is d s
       = snapshot_body snap (E\<lparr>list_dir_contents := L'\<rparr>) src dest pb ih is d s"
proof -
  have "(case L src is ih fs of None \<Rightarrow> io_return 0
         | Some contents \<Rightarrow> write_report snap E src pwd out pb is d (sort contents))
      = (case L' src is ih fs of None \<Rightarrow> io_return 0
         | Some contents \<Rightarrow> write_report snap E src pwd out pb is d (sort contents))"
    for fs pwd out
  proof -
    from assms have "rel_option (\<lambda>xs ys. mset xs = mset ys) (L src is ih fs) (L' src is ih fs)"
      by blast
    then show ?thesis
      by (cases "L src is ih fs"; cases "L' src is ih fs") (auto dest: sort_same_entries)
  qed
  note step = this
  show ?thesis
    unfolding snapshot_body_def Let_def
  proof (rule io_bind_cong_result)
    fix x s1
    let ?pwd = "joinpath dest (name src)"
    let ?out = "joinpath ?pwd (name src @ ''.html'')"
    have "io_bind (\<lambda>s. (Inr (L src is ih (disk s)), s))
            (\<lambda>src_path_contents. case src_path_contents of None \<Rightarrow> io_return 0
               | Some contents \<Rightarrow> write_report snap E src ?pwd ?out pb is d (sort contents)) s1
        = io_bind (\<lambda>s. (Inr (L' src is ih (disk s)), s))
            (\<lambda>src_path_contents. case src_path_contents of None \<Rightarrow> io_return 0
               | Some contents \<Rightarrow> write_report snap E src ?pwd ?out pb is d (sort contents)) s1"
      using step [where fs = "disk s1" and pwd = "?pwd" and out = "?out"] by (simp add: io_bind_def)
    then show "(if Some src = dest_path_root (E\<lparr>list_dir_contents := L\<rparr>)
          then io_bind (\<lambda>s. (Inr (), print (Text ''Original destination path reached!!'') s))
                 (\<lambda>_. io_bind (on_disk (write_text ?out marker)) (\<lambda>_. io_return (- 1)))
          else io_bind (\<lambda>s. (Inr (list_dir_contents (E\<lparr>list_dir_contents := L\<rparr>) src is ih (disk s)), s))
                 (\<lambda>src_path_contents. case src_path_contents of None \<Rightarrow> io_return 0
                    | Some contents \<Rightarrow>
                        write_report snap (E\<lparr>list_dir_contents := L\<rparr>) src ?pwd ?out pb is d
                          (sort contents))) s1
       = (if Some src = dest_path_root (E\<lparr>list_dir_contents := L'\<rparr>)
          then io_bind (\<lambda>s. (Inr (), print (Text ''Original destination path reached!!'') s))
                 (\<lambda>_. io_bind (on_disk (write_text ?out marker)) (\<lambda>_. io_return (- 1)))
          else io_bind (\<lambda>s. (Inr (list_dir_contents (E\<lparr>list_dir_contents := L'\<rparr>) src is ih (disk s)), s))
                 (\<lambda>src_path_contents. case src_path_contents of None \<Rightarrow> io_return 0
                    | Some contents \<Rightarrow>
                        write_report snap (E\<lparr>list_dir_contents := L'\<rparr>) src ?pwd ?out pb is d
                          (sort contents))) s1"
      by (simp cong: option.case_cong)
  qed
qed

lemma get_snapshot_lister:
  assumes "\<forall>p a b fs. rel_option (\<lambda>xs ys. mset xs = mset ys) (L p a b fs) (L' p a b fs)"
  shows "get_snapshot limit (E\<lparr>list_dir_contents := L\<rparr>) src dest pb ih is d s
       = get_snapshot limit (E\<lparr>list_dir_contents := L'\<rparr>) src dest pb ih is d s"
proof (induction limit arbitrary: src dest d s)
  case 0
  show ?case by simp
next
  case (Suc limit)
  have "(\<lambda>a b c. get_snapshot limit (E\<lparr>list_dir_contents := L\<rparr>) a b pb ih is c)
      = (\<lambda>a b c. get_snapshot limit (E\<lparr>list_dir_contents := L'\<rparr>) a b pb ih is c)"
    by (intro ext) (rule Suc.IH)
  then show ?case
    unfolding get_snapshot.simps by (simp add: snapshot_body_lister [OF assms])
qed

lemma sibling_order: "p @ [a] \<le> p @ [b] \<longleftrightarrow> a \<le> (b :: string)"
  by (induction p) auto

lemma sorted_names:
  assumes "sorted xs" and "\<forall>x \<in> set xs. \<exists>n. x = parent @ [n]"
  shows "sorted (map name xs)"
proof -
  have "sorted_wrt (\<lambda>x y. name x \<le> name y) xs"
  proof (rule sorted_wrt_mono_rel [of xs "(\<le>)"])
    fix x y
    assume "x \<in> set xs" "y \<in> set xs" "x \<le> y"
    with assms(2) obtain a b where "x = parent @ [a]" "y = parent @ [b]"
      by blast
    with \<open>x \<le> y\<close> show "name x \<le> name y"
      by (simp add: name_def sibling_order)
  next
    show "sorted_wrt (\<le>) xs"
      using assms(1) by simp
  qed
  then show ?thesis
    by (simp add: sorted_map)
qed

section \<open>The classification of symbolic links\<close>

text \<open>
  Claim C1 does not hold of the code. The loop of lines 73 to 79 asks \<^verbatim>\<open>is_dir\<close> first,
  and \<^verbatim>\<open>Path.is_dir\<close> follows symbolic links: a link to a directory goes to the list of
  directories and never reaches the test \<^verbatim>\<open>is_symlink\<close>. In the tree below, \<^verbatim>\<open>/s/l\<close> is a
  link to \<^verbatim>\<open>/t\<close>; it is put among the directories, gets a row in the directories table
  of the report, and the 5 bytes of \<^verbatim>\<open>/t/f\<close> are counted in the total of \<^verbatim>\<open>/s\<close>.
\<close>

theorem symlink_to_directory_is_counted:
  "is_symlink tree_link [''s'', ''l'']
   \<and> categorize tree_link [[''s'', ''l'']] ([], [], []) = ([], [], [[''s'', ''l'']])
   \<and> fst (get_snapshot 3 (sample_env [''d'']) [''s''] [''d''] False False False 5 (initially tree_link)) = Inr 5
   \<and> read_text
         (disk (snd (get_snapshot 3 (sample_env [''d'']) [''s''] [''d''] False False False 5
                  (initially tree_link))))
         [''d'', ''s'', ''s.html'']
       = Some (''<h1>s</h1><files>No files found.'' @ newline @ ''<end><dirs><d>l: 5 B</d><end>''
               @ ''<links>No symlinks found.'' @ newline @ ''<end><total>5 B</total>'')"
  by code_simp

section \<open>The total in the footer\<close>

text \<open>
  Claim C2 does not hold of the code. The claim leaves out of the footer total every
  entry whose processing failed, and the loop over the files (lines 90 to 95) does so:
  the size of a file is added only after \<^verbatim>\<open>write_file_entry\<close> has returned. The loop over the
  directories (lines 105 to 112) adds \<^verbatim>\<open>dir_size\<close> in line 109, before line 110 calls
  \<^verbatim>\<open>write_dir_entry\<close> inside the same \<^verbatim>\<open>try\<close>. In the run below the only entry of \<^verbatim>\<open>/a\<close> is
  the directory \<^verbatim>\<open>b\<close>; its processing fails (appending its row raises, the error line for
  \<^verbatim>\<open>/a/b\<close> is printed and the directories table has no row), and still the footer of
  \<^verbatim>\<open>/a\<close> and the value returned are the 5 bytes of \<^verbatim>\<open>b\<close>, not the 0 of the claim: the
  report shows a total that none of its rows accounts for.
\<close>

theorem footer_counts_failed_directory:
  "fst (get_snapshot (Suc 1) flaky_env [''a''] [''d''] False False False 3 (initially tree_nested)) = Inr 5
   \<and> stdout (snd (get_snapshot (Suc 1) flaky_env [''a''] [''d''] False False False 3 (initially tree_nested)))
       = [Error_directory [''a'', ''b''] OSError]
   \<and> read_text (disk (snd (get_snapshot (Suc 1) flaky_env [''a''] [''d''] False False False 3
        (initially tree_nested)))) [''d'', ''a'', ''a.html'']
       = Some (''<h1>a</h1><files>No files found.'' @ newline @ ''<end><dirs><end>''
               @ ''<links>No symlinks found.'' @ newline @ ''<end><total>5 B</total>'')"
  by code_simp

text \<open>
  The same failure in the loop over the files, as the claim has it: the only entry of
  \<^verbatim>\<open>/a/b\<close> is the file \<^verbatim>\<open>f\<close> of 5 bytes, appending its row raises, the error line is printed,
  the files table has no row, and the footer and the value returned are 0.
\<close>

lemma failed_file_is_left_out:
  "fst (get_snapshot (Suc 0) flaky_file_env [''a'', ''b''] [''d''] False False False 3 (initially tree_nested))
     = Inr 0
   \<and> stdout (snd (get_snapshot (Suc 0) flaky_file_env [''a'', ''b''] [''d''] False False False 3
        (initially tree_nested)))
       = [Error_file [''a'', ''b'', ''f''] OSError]
   \<and> read_text (disk (snd (get_snapshot (Suc 0) flaky_file_env [''a'', ''b''] [''d''] False False False 3
        (initially tree_nested)))) [''d'', ''b'', ''b.html'']
       = Some (''<h1>b</h1><files><end><dirs>No subdirectories found.'' @ newline
               @ ''<end><links>No symlinks found.'' @ newline @ ''<end><total>0 B</total>'')"
  by code_simp

text \<open>
  What the code computes in every run. For a directory that \<^verbatim>\<open>get_snapshot\<close> visits (it is
  not the original destination and its listing is \<open>contents\<close>) and for which the call
  returns \<open>v\<close>: \<open>v\<close> is the sum of the sizes of the files whose row was written without an
  exception, plus the sum of the totals returned by the recursive calls for the
  directories the loop runs over (none at depth 0, all of them otherwise), whether their
  row was written or not. The report ends with the footer made from \<open>v\<close>, the value
  returned. The states \<open>s2\<close> and \<open>s4\<close> are the ones in which the two loops start.
\<close>

lemma footer_total_is_sum:
  assumes run: "get_snapshot (Suc limit) E src_path dest_path progress_bar ignore_hidden
                  ignore_symlinks max_rec_depth s = (Inr v, s')"
    and guard: "Some src_path \<noteq> dest_path_root E"
    and pwd: "pwd = joinpath dest_path (name src_path)"
    and out: "out = joinpath pwd (name src_path @ ''.html'')"
    and reset: "reset_mirror pwd out s = (r0, s0)"
    and listing: "list_dir_contents E src_path ignore_symlinks ignore_hidden (disk s0) = Some contents"
    and cat: "categorize (disk s0) (sort contents) ([], [], []) = (symlinks, files, dirs)"
    and snap: "snap = (\<lambda>a b c. get_snapshot limit E a b progress_bar ignore_hidden ignore_symlinks c)"
  shows "\<exists>s1 s2 subtotal s3 dirs' s4 doc.
      on_disk (write_text out (template_html_header E (escape_html_special_chars E (name src_path) False))) s0
        = (Inr (), s1)
    \<and> open_files_table E out files s1 = (Inr (), s2)
    \<and> write_files_table E out progress_bar files 0 s1 = (Inr subtotal, s3)
    \<and> open_dirs_table E out max_rec_depth dirs s3 = (Inr dirs', s4)
    \<and> dirs' = (if max_rec_depth = 0 then [] else dirs)
    \<and> v = sum_list (successes (file_outcomes E out progress_bar files s2))
          + sum_list (returned_totals (dir_outcomes snap E src_path pwd out max_rec_depth dirs' s4))
    \<and> read_text (disk s') out =
          Some (doc @ template_table_footer E (round_file_size_to_human_friendly_units E v))"
proof -
  have "write_report snap E src_path pwd out progress_bar ignore_symlinks max_rec_depth
          (sort contents) s0 = (Inr v, s')"
    unfolding snap by (rule get_snapshot_report [OF run guard pwd out reset listing])
  from write_report_total [OF this cat] obtain s1 s2 subtotal s3 dirs' s4 doc
    where *: "on_disk (write_text out (template_html_header E (escape_html_special_chars E (name src_path) False))) s0
          = (Inr (), s1)"
      "open_files_table E out files s1 = (Inr (), s2)"
      "write_files_table E out progress_bar files 0 s1 = (Inr subtotal, s3)"
      "open_dirs_table E out max_rec_depth dirs s3 = (Inr dirs', s4)"
      "v = sum_list (successes (file_outcomes E out progress_bar files s2))
          + sum_list (returned_totals (dir_outcomes snap E src_path pwd out max_rec_depth dirs' s4))"
      "read_text (disk s') out =
          Some (doc @ template_table_footer E (round_file_size_to_human_friendly_units E v))"
    by blast
  from open_dirs_table_result [OF *(4)] have "dirs' = (if max_rec_depth = 0 then [] else dirs)" .
  with * show ?thesis by blast
qed

text \<open>
  The example of the specification: \<^verbatim>\<open>/a\<close> with hidden entries ignored has a footer of
  5 bytes, the size of \<^verbatim>\<open>x.txt\<close>.
\<close>

lemma footer_total_is_sum_example:
  "fst (get_snapshot (Suc 1) (sample_env [''d'']) [''a''] [''d''] True True False 3 (initially tree_a)) = Inr 5
   \<and> (\<exists>doc. read_text
         (disk (snd (get_snapshot (Suc 1) (sample_env [''d'']) [''a''] [''d''] True True False 3
                  (initially tree_a))))
         [''d'', ''a'', ''a.html''] = Some (doc @ ''<total>5 B</total>''))"
proof -
  let ?E = "sample_env [''d'']"
  let ?s = "initially tree_a"
  let ?pwd = "joinpath [''d''] (name [''a''])"
  let ?out = "joinpath ?pwd (name [''a''] @ ''.html'')"
  let ?reset = "snd (reset_mirror ?pwd ?out ?s)"
  have run: "get_snapshot (Suc 1) ?E [''a''] [''d''] True True False 3 ?s
      = (Inr 5, snd (get_snapshot (Suc 1) ?E [''a''] [''d''] True True False 3 ?s))"
    by code_simp
  have guard: "Some [''a''] \<noteq> dest_path_root ?E"
    by (simp add: sample_env_def)
  have reset: "reset_mirror ?pwd ?out ?s = (Inr (), ?reset)"
    by code_simp
  have listing: "list_dir_contents ?E [''a''] False True (disk ?reset) = Some [[''a'', ''x.txt''], [''a'', ''b'']]"
    by code_simp
  have cat: "categorize (disk ?reset) (sort [[''a'', ''x.txt''], [''a'', ''b'']]) ([], [], [])
      = ([], [[''a'', ''x.txt'']], [[''a'', ''b'']])"
    by code_simp
  have foot: "template_table_footer ?E (round_file_size_to_human_friendly_units ?E 5) = ''<total>5 B</total>''"
    by code_simp
  have pathname: "?out = [''d'', ''a'', ''a.html'']"
    by code_simp
  from footer_total_is_sum [OF run guard refl refl reset listing cat refl]
  obtain doc where "read_text
         (disk (snd (get_snapshot (Suc 1) ?E [''a''] [''d''] True True False 3 ?s))) ?out
      = Some (doc @ template_table_footer ?E (round_file_size_to_human_friendly_units ?E 5))"
    by blast
  then have "read_text
         (disk (snd (get_snapshot (Suc 1) ?E [''a''] [''d''] True True False 3 ?s)))
         [''d'', ''a'', ''a.html''] = Some (doc @ ''<total>5 B</total>'')"
    by (simp only: foot pathname)
  moreover have "fst (get_snapshot (Suc 1) ?E [''a''] [''d''] True True False 3 ?s) = Inr 5"
    using run by (metis fst_conv)
  ultimately show ?thesis by blast
qed

text \<open>
  So the claim is true of every run in which no row of a directory fails to be written:
  the totals returned are then the totals of the directories processed without an
  exception.
\<close>

lemma footer_total_without_row_failure:
  assumes run: "get_snapshot (Suc limit) E src_path dest_path progress_bar ignore_hidden
                  ignore_symlinks max_rec_depth s = (Inr v, s')"
    and guard: "Some src_path \<noteq> dest_path_root E"
    and pwd: "pwd = joinpath dest_path (name src_path)"
    and out: "out = joinpath pwd (name src_path @ ''.html'')"
    and reset: "reset_mirror pwd out s = (r0, s0)"
    and listing: "list_dir_contents E src_path ignore_symlinks ignore_hidden (disk s0) = Some contents"
    and cat: "categorize (disk s0) (sort contents) ([], [], []) = (symlinks, files, dirs)"
    and snap: "snap = (\<lambda>a b c. get_snapshot limit E a b progress_bar ignore_hidden ignore_symlinks c)"
  shows "\<exists>s1 s2 subtotal s3 dirs' s4.
      on_disk (write_text out (template_html_header E (escape_html_special_chars E (name src_path) False))) s0
        = (Inr (), s1)
    \<and> open_files_table E out files s1 = (Inr (), s2)
    \<and> write_files_table E out progress_bar files 0 s1 = (Inr subtotal, s3)
    \<and> open_dirs_table E out max_rec_depth dirs s3 = (Inr dirs', s4)
    \<and> ((\<forall>dir_size e. Row_raised dir_size e
              \<notin> set (dir_outcomes snap E src_path pwd out max_rec_depth dirs' s4))
         \<longrightarrow> v = sum_list (successes (file_outcomes E out progress_bar files s2))
               + sum_list (unfailed_totals (dir_outcomes snap E src_path pwd out max_rec_depth dirs' s4)))"
proof -
  from footer_total_is_sum [OF run guard pwd out reset listing cat snap]
  obtain s1 s2 subtotal s3 dirs' s4 where
    *: "on_disk (write_text out (template_html_header E (escape_html_special_chars E (name src_path) False))) s0
          = (Inr (), s1)"
      "open_files_table E out files s1 = (Inr (), s2)"
      "write_files_table E out progress_bar files 0 s1 = (Inr subtotal, s3)"
      "open_dirs_table E out max_rec_depth dirs s3 = (Inr dirs', s4)"
    and v: "v = sum_list (successes (file_outcomes E out progress_bar files s2))
          + sum_list (returned_totals (dir_outcomes snap E src_path pwd out max_rec_depth dirs' s4))"
    by blast
  have "v = sum_list (successes (file_outcomes E out progress_bar files s2))
          + sum_list (unfailed_totals (dir_outcomes snap E src_path pwd out max_rec_depth dirs' s4))"
    if "\<forall>dir_size e. Row_raised dir_size e
          \<notin> set (dir_outcomes snap E src_path pwd out max_rec_depth dirs' s4)"
    using v returned_totals_unfailed [of "dir_outcomes snap E src_path pwd out max_rec_depth dirs' s4"] that
    by simp
  with * show ?thesis by blast
qed

section \<open>The self-reference guard\<close>

text \<open>
  Claim C3. When the source path of a call is the original destination root: a call that
  returns returns \<open>-1\<close>, the report of that level is exactly the one-line marker, the one
  line \<^verbatim>\<open>Original destination path reached!!\<close> is printed and the progress bar is not
  touched; the outcome is the same whatever the listing collaborator would answer and
  whatever the depth, the flags and the number of nested calls left, so nothing is
  listed and nothing is recursed into; and the call does return \<open>-1\<close> once the mirror
  directory has been reset and the report file can be written.
\<close>

theorem self_reference_guard:
  assumes guard: "dest_path_root E = Some src_path"
    and pwd: "pwd = joinpath dest_path (name src_path)"
    and out: "out = joinpath pwd (name src_path @ ''.html'')"
  shows "(\<forall>v s'. get_snapshot (Suc limit) E src_path dest_path progress_bar ignore_hidden
                     ignore_symlinks max_rec_depth s = (Inr v, s') \<longrightarrow>
            v = - 1 \<and> read_text (disk s') out = Some marker
          \<and> stdout s' = stdout s @ [Text ''Original destination path reached!!'']
          \<and> bar_n s' = bar_n s)
       \<and> (\<forall>limit' L progress_bar' ignore_hidden' ignore_symlinks' max_rec_depth'.
            get_snapshot (Suc limit') (E\<lparr>list_dir_contents := L\<rparr>) src_path dest_path progress_bar'
              ignore_hidden' ignore_symlinks' max_rec_depth' s
          = get_snapshot (Suc limit) E src_path dest_path progress_bar ignore_hidden ignore_symlinks
              max_rec_depth s)
       \<and> (\<forall>s1. reset_mirror pwd out s = (Inr (), s1) \<longrightarrow> writable (disk s1) out = None \<longrightarrow>
            fst (get_snapshot (Suc limit) E src_path dest_path progress_bar ignore_hidden
                   ignore_symlinks max_rec_depth s) = Inr (- 1))"
proof (intro conjI allI impI)
  fix v s'
  assume "get_snapshot (Suc limit) E src_path dest_path progress_bar ignore_hidden
            ignore_symlinks max_rec_depth s = (Inr v, s')"
  then obtain s1 fs' where r: "reset_mirror pwd out s = (Inr (), s1)"
    and w: "write_text out marker (disk (print (Text ''Original destination path reached!!'') s1)) = Inr fs'"
    and s': "s' = (print (Text ''Original destination path reached!!'') s1)\<lparr>disk := fs'\<rparr>"
    and v: "v = - 1"
    unfolding guard_run [OF guard pwd out]
    by (auto simp: io_bind_Inr on_disk_Inr io_return_Inr)
  show "v = - 1" by (rule v)
  show "read_text (disk s') out = Some marker"
    using write_text_content [OF w] s' by (simp add: read_text_def)
  show "stdout s' = stdout s @ [Text ''Original destination path reached!!'']"
    using s' reset_mirror_log(1) [OF r] by (simp add: print_def)
  show "bar_n s' = bar_n s"
    using s' reset_mirror_log(2) [OF r] by (simp add: print_def)
next
  fix limit' L progress_bar' ignore_hidden' ignore_symlinks' max_rec_depth'
  have "dest_path_root (E\<lparr>list_dir_contents := L\<rparr>) = Some src_path"
    using guard by simp
  from guard_run [OF this pwd out] guard_run [OF guard pwd out]
  show "get_snapshot (Suc limit') (E\<lparr>list_dir_contents := L\<rparr>) src_path dest_path progress_bar'
              ignore_hidden' ignore_symlinks' max_rec_depth' s
          = get_snapshot (Suc limit) E src_path dest_path progress_bar ignore_hidden ignore_symlinks
              max_rec_depth s"
    by simp
next
  fix s1
  assume "reset_mirror pwd out s = (Inr (), s1)" "writable (disk s1) out = None"
  then show "fst (get_snapshot (Suc limit) E src_path dest_path progress_bar ignore_hidden
                   ignore_symlinks max_rec_depth s) = Inr (- 1)"
    unfolding guard_run [OF guard pwd out]
    by (simp add: io_bind_def on_disk_def write_text_def print_def io_return_def)
qed

text \<open>Source and destination both \<^verbatim>\<open>/a\<close>: the call returns \<open>-1\<close> and leaves the marker.\<close>

theorem self_reference_guard_witness:
  "dest_path_root (sample_env [''a'']) = Some [''a'']
   \<and> get_snapshot (Suc 0) (sample_env [''a'']) [''a''] [''a''] True True False 3 (initially tree_a)
     = (Inr (- 1), snd (get_snapshot (Suc 0) (sample_env [''a'']) [''a''] [''a''] True True False 3 (initially tree_a)))
   \<and> read_text (disk (snd (get_snapshot (Suc 0) (sample_env [''a'']) [''a''] [''a''] True True False 3
        (initially tree_a)))) [''a'', ''a'', ''a.html''] = Some marker
   \<and> stdout (snd (get_snapshot (Suc 0) (sample_env [''a'']) [''a''] [''a''] True True False 3
        (initially tree_a))) = [Text ''Original destination path reached!!'']"
proof -
  let ?E = "sample_env [''a'']"
  let ?run = "get_snapshot (Suc 0) ?E [''a''] [''a''] True True False 3 (initially tree_a)"
  have guard: "dest_path_root ?E = Some [''a'']"
    by (simp add: sample_env_def)
  have pwd: "[''a'', ''a''] = joinpath [''a''] (name [''a''])"
    by code_simp
  have out: "[''a'', ''a'', ''a.html''] = joinpath [''a'', ''a''] (name [''a''] @ ''.html'')"
    by code_simp
  have run: "?run = (Inr (- 1), snd ?run)"
    by code_simp
  have log: "stdout (initially tree_a) = []"
    by (simp add: initially_def)
  from self_reference_guard [OF guard pwd out, where limit = "0" and progress_bar = "True"
      and ignore_hidden = "True" and ignore_symlinks = "False" and max_rec_depth = "3"
      and s = "initially tree_a"] run
  have "read_text (disk (snd ?run)) [''a'', ''a'', ''a.html''] = Some marker
      \<and> stdout (snd ?run) = stdout (initially tree_a) @ [Text ''Original destination path reached!!'']"
    by blast
  with guard run log show ?thesis by simp
qed

section \<open>The sentinel in the total of the parent\<close>

text \<open>
  Claim C4. In the loop over the directories of a visited directory, for an entry whose
  path is the original destination root: when its recursive call returns, it returns
  \<open>-1\<close>; the loop goes on with the running total lowered by one; and the total at the end
  of the loop is the total before, minus one, plus what the remaining entries add. The
  branch adds exactly \<open>-1\<close>, neither 0 nor a positive number. (The loop reaches the
  entry when it is listed and the depth is not 0; the sum of C2 carries the total of the
  loop into the footer.)
\<close>

theorem sentinel_is_added:
  assumes root: "dest_path_root E = Some (joinpath src_path (name entry))"
    and snap: "snap = (\<lambda>a b c. get_snapshot (Suc limit) E a b progress_bar ignore_hidden ignore_symlinks c)"
    and call: "snap (joinpath src_path (name entry)) pwd (max_rec_depth - 1) s = (Inr dir_size, s')"
  shows "dir_size = - 1
       \<and> (\<exists>s''. dirs_loop snap E src_path pwd out max_rec_depth (entry # rest) a s
                = dirs_loop snap E src_path pwd out max_rec_depth rest (a - 1) s'')
       \<and> fst (dirs_loop snap E src_path pwd out max_rec_depth (entry # rest) a s)
           = a - 1 + sum_list (returned_totals (tl (dir_outcomes snap E src_path pwd out max_rec_depth (entry # rest) s)))"
proof -
  from call have "get_snapshot (Suc limit) E (joinpath src_path (name entry)) pwd progress_bar
      ignore_hidden ignore_symlinks (max_rec_depth - 1) s = (Inr dir_size, s')"
    by (simp add: snap)
  then have size: "dir_size = - 1"
    unfolding guard_run [OF root refl refl]
    by (auto simp: io_bind_Inr io_return_Inr)
  have step: "\<exists>s''. dirs_loop snap E src_path pwd out max_rec_depth (entry # rest) a s
                = dirs_loop snap E src_path pwd out max_rec_depth rest (a - 1) s''"
    using call size by (auto split: prod.splits sum.splits)
  have "fst (dirs_loop snap E src_path pwd out max_rec_depth (entry # rest) a s)
      = a + sum_list (returned_totals (dir_outcomes snap E src_path pwd out max_rec_depth (entry # rest) s))"
    by (rule dirs_loop_sum)
  also have "\<dots> = a - 1 + sum_list (returned_totals (tl (dir_outcomes snap E src_path pwd out max_rec_depth (entry # rest) s)))"
    using call size by (auto split: prod.splits sum.splits)
  finally show ?thesis using size step by blast
qed

text \<open>
  The destination \<^verbatim>\<open>/a/b\<close> inside the source \<^verbatim>\<open>/a\<close>: the files of \<^verbatim>\<open>/a\<close> have 8 bytes and
  the call for \<^verbatim>\<open>/a\<close> returns 7.
\<close>

theorem sentinel_is_added_witness:
  "dest_path_root (sample_env [''a'', ''b'']) = Some (joinpath [''a''] (name [''a'', ''b'']))
   \<and> fst (get_snapshot (Suc 0) (sample_env [''a'', ''b'']) [''a'', ''b''] [''a'', ''b'', ''a'']
             True False False (3 - 1)
             (snd (reset_mirror [''a'', ''b'', ''a''] [''a'', ''b'', ''a'', ''a.html''] (initially tree_a))))
       = Inr (- 1)
   \<and> fst (dirs_loop
             (\<lambda>a b c. get_snapshot (Suc 0) (sample_env [''a'', ''b'']) a b True False False c)
             (sample_env [''a'', ''b'']) [''a''] [''a'', ''b'', ''a''] [''a'', ''b'', ''a'', ''a.html''] 3
             [[''a'', ''b'']] 8
             (snd (reset_mirror [''a'', ''b'', ''a''] [''a'', ''b'', ''a'', ''a.html''] (initially tree_a))))
       = 7
   \<and> fst (get_snapshot (Suc 1) (sample_env [''a'', ''b'']) [''a''] [''a'', ''b''] True False False 3
             (initially tree_a)) = Inr 7"
proof -
  let ?E = "sample_env [''a'', ''b'']"
  let ?snap = "\<lambda>a b c. get_snapshot (Suc 0) ?E a b True False False c"
  let ?s = "snd (reset_mirror [''a'', ''b'', ''a''] [''a'', ''b'', ''a'', ''a.html''] (initially tree_a))"
  let ?call = "?snap (joinpath [''a''] (name [''a'', ''b''])) [''a'', ''b'', ''a''] (3 - 1) ?s"
  have root: "dest_path_root ?E = Some (joinpath [''a''] (name [''a'', ''b'']))"
    by code_simp
  have call: "?call = (Inr (- 1), snd ?call)"
    by code_simp
  from sentinel_is_added [OF root refl call, where rest = "[]" and a = "8"
      and out = "[''a'', ''b'', ''a'', ''a.html'']"]
  obtain s'' where "dirs_loop ?snap ?E [''a''] [''a'', ''b'', ''a''] [''a'', ''b'', ''a'', ''a.html''] 3
      [[''a'', ''b'']] 8 ?s
    = dirs_loop ?snap ?E [''a''] [''a'', ''b'', ''a''] [''a'', ''b'', ''a'', ''a.html''] 3 [] (8 - 1) s''"
    by blast
  then have loop: "fst (dirs_loop ?snap ?E [''a''] [''a'', ''b'', ''a''] [''a'', ''b'', ''a'', ''a.html''] 3
      [[''a'', ''b'']] 8 ?s) = 7"
    by simp
  have path: "joinpath [''a''] (name [''a'', ''b'']) = [''a'', ''b'']"
    by code_simp
  have "fst ?call = Inr (- 1)"
    using call by (metis fst_conv)
  then have ret: "fst (get_snapshot (Suc 0) ?E [''a'', ''b''] [''a'', ''b'', ''a''] True False False (3 - 1) ?s)
      = Inr (- 1)"
    by (simp only: path)
  have whole: "fst (get_snapshot (Suc 1) ?E [''a''] [''a'', ''b''] True False False 3 (initially tree_a)) = Inr 7"
    by code_simp
  from root ret loop whole show ?thesis by blast
qed

section \<open>The depth limit\<close>

text \<open>
  Claim C5. At depth 0 a call makes no recursive call: its outcome is that of the body
  with any other function in the place of the recursion. With directories present, the
  table of the directories then gets the line \<^verbatim>\<open>Recursion depth limit reached!\<close> followed
  at once by the end of the table, and leaves the running total as it was. At any other
  depth the only recursive calls that matter are those for a child path of the source
  with the mirror directory as destination and the depth lowered by one; the loop runs
  over all the directories and adds the totals their calls return. With a depth of
  \<open>d \<ge> 0\<close> the calls never nest deeper than \<open>d\<close> below the first one: any two numbers of
  nested calls allowed that exceed \<open>d\<close> give the same run.
\<close>

theorem depth_limit:
  assumes pwd: "pwd = joinpath dest_path (name src_path)"
  shows "(max_rec_depth = 0 \<longrightarrow>
            (\<forall>snap'. get_snapshot (Suc limit) E src_path dest_path progress_bar ignore_hidden
                        ignore_symlinks max_rec_depth s
                    = snapshot_body snap' E src_path dest_path progress_bar ignore_hidden
                        ignore_symlinks max_rec_depth s))
       \<and> (max_rec_depth = 0 \<longrightarrow> dirs \<noteq> [] \<longrightarrow>
            (\<forall>v t'. write_dirs_table snap E src_path pwd out max_rec_depth dirs a t = (Inr v, t') \<longrightarrow>
               v = a
             \<and> (\<exists>doc. read_text (disk t') out =
                   Some (doc @ (''Recursion depth limit reached!'' @ newline) @ template_table_close E))))
       \<and> (max_rec_depth \<noteq> 0 \<longrightarrow>
            get_snapshot (Suc limit) E src_path dest_path progress_bar ignore_hidden ignore_symlinks
              max_rec_depth s
          = snapshot_body
              (\<lambda>src_path' dest_path' max_rec_depth'.
                 if (\<exists>n. src_path' = joinpath src_path n) \<and> dest_path' = pwd
                    \<and> max_rec_depth' = max_rec_depth - 1
                 then get_snapshot limit E src_path' dest_path' progress_bar ignore_hidden
                        ignore_symlinks max_rec_depth'
                 else io_raise RecursionError)
              E src_path dest_path progress_bar ignore_hidden ignore_symlinks max_rec_depth s)
       \<and> (max_rec_depth \<noteq> 0 \<longrightarrow>
            (\<forall>dirs' t'. open_dirs_table E out max_rec_depth dirs t = (Inr dirs', t') \<longrightarrow> dirs' = dirs))
       \<and> (max_rec_depth \<noteq> 0 \<longrightarrow>
            (\<forall>v t'. write_dirs_table snap E src_path pwd out max_rec_depth dirs a t = (Inr v, t') \<longrightarrow>
               (\<exists>t1. v = a + sum_list (returned_totals
                              (dir_outcomes snap E src_path pwd out max_rec_depth dirs t1)))))
       \<and> length (dir_outcomes snap E src_path pwd out max_rec_depth dirs t) = length dirs
       \<and> (0 \<le> max_rec_depth \<longrightarrow> nat max_rec_depth < limit \<longrightarrow> nat max_rec_depth < limit' \<longrightarrow>
            get_snapshot limit E src_path dest_path progress_bar ignore_hidden ignore_symlinks
              max_rec_depth s
          = get_snapshot limit' E src_path dest_path progress_bar ignore_hidden ignore_symlinks
              max_rec_depth s)"
proof (intro conjI)
  show "max_rec_depth = 0 \<longrightarrow>
            (\<forall>snap'. get_snapshot (Suc limit) E src_path dest_path progress_bar ignore_hidden
                        ignore_symlinks max_rec_depth s
                    = snapshot_body snap' E src_path dest_path progress_bar ignore_hidden
                        ignore_symlinks max_rec_depth s)"
    unfolding get_snapshot.simps by (intro impI allI, rule snapshot_body_cong) simp
  show "max_rec_depth = 0 \<longrightarrow> dirs \<noteq> [] \<longrightarrow>
            (\<forall>v t'. write_dirs_table snap E src_path pwd out max_rec_depth dirs a t = (Inr v, t') \<longrightarrow>
               v = a
             \<and> (\<exists>doc. read_text (disk t') out =
                   Some (doc @ (''Recursion depth limit reached!'' @ newline) @ template_table_close E)))"
  proof (intro impI allI conjI)
    fix v t'
    assume "max_rec_depth = 0" and ne: "dirs \<noteq> []"
      and "write_dirs_table snap E src_path pwd out max_rec_depth dirs a t = (Inr v, t')"
    then have w: "write_dirs_table snap E src_path pwd out 0 dirs a t = (Inr v, t')"
      by simp
    show "v = a"
      by (rule depth_zero_table(1) [OF w ne])
    show "\<exists>doc. read_text (disk t') out =
            Some (doc @ (''Recursion depth limit reached!'' @ newline) @ template_table_close E)"
      by (rule depth_zero_table(2) [OF w ne])
  qed
  show "max_rec_depth \<noteq> 0 \<longrightarrow>
            get_snapshot (Suc limit) E src_path dest_path progress_bar ignore_hidden ignore_symlinks
              max_rec_depth s
          = snapshot_body
              (\<lambda>src_path' dest_path' max_rec_depth'.
                 if (\<exists>n. src_path' = joinpath src_path n) \<and> dest_path' = pwd
                    \<and> max_rec_depth' = max_rec_depth - 1
                 then get_snapshot limit E src_path' dest_path' progress_bar ignore_hidden
                        ignore_symlinks max_rec_depth'
                 else io_raise RecursionError)
              E src_path dest_path progress_bar ignore_hidden ignore_symlinks max_rec_depth s"
    unfolding get_snapshot.simps by (intro impI, rule snapshot_body_cong) (auto simp: pwd)
  show "max_rec_depth \<noteq> 0 \<longrightarrow>
            (\<forall>dirs' t'. open_dirs_table E out max_rec_depth dirs t = (Inr dirs', t') \<longrightarrow> dirs' = dirs)"
    using open_dirs_table_result by fastforce
  show "max_rec_depth \<noteq> 0 \<longrightarrow>
            (\<forall>v t'. write_dirs_table snap E src_path pwd out max_rec_depth dirs a t = (Inr v, t') \<longrightarrow>
               (\<exists>t1. v = a + sum_list (returned_totals
                              (dir_outcomes snap E src_path pwd out max_rec_depth dirs t1))))"
  proof (intro impI allI)
    fix v t'
    assume nz: "max_rec_depth \<noteq> 0"
      and w: "write_dirs_table snap E src_path pwd out max_rec_depth dirs a t = (Inr v, t')"
    from write_dirs_table_sum [OF w] obtain dirs' t1
      where o: "open_dirs_table E out max_rec_depth dirs t = (Inr dirs', t1)"
        and v: "v = a + sum_list (returned_totals
                  (dir_outcomes snap E src_path pwd out max_rec_depth dirs' t1))"
      by blast
    from open_dirs_table_result [OF o] nz have "dirs' = dirs"
      by simp
    with v show "\<exists>t1. v = a + sum_list (returned_totals
                  (dir_outcomes snap E src_path pwd out max_rec_depth dirs t1))"
      by blast
  qed
  show "length (dir_outcomes snap E src_path pwd out max_rec_depth dirs t) = length dirs"
    by (rule length_dir_outcomes)
  show "0 \<le> max_rec_depth \<longrightarrow> nat max_rec_depth < limit \<longrightarrow> nat max_rec_depth < limit' \<longrightarrow>
            get_snapshot limit E src_path dest_path progress_bar ignore_hidden ignore_symlinks
              max_rec_depth s
          = get_snapshot limit' E src_path dest_path progress_bar ignore_hidden ignore_symlinks
              max_rec_depth s"
    using bounded_descent by blast
qed

text \<open>
  Depth 0 on \<^verbatim>\<open>/a\<close>: the run with five nested calls left equals the run with none left,
  the total is that of the two files, the report has the placeholder and no mirror of
  \<^verbatim>\<open>b\<close> is created. At depth 3 the head of the table keeps the list of directories, and
  at depth 1 two nested calls are as good as seven.
\<close>

theorem depth_limit_witness:
  "get_snapshot (Suc 5) (sample_env [''d'']) [''a''] [''d''] True False False 0 (initially tree_a)
     = get_snapshot (Suc 0) (sample_env [''d'']) [''a''] [''d''] True False False 0 (initially tree_a)
   \<and> fst (get_snapshot (Suc 5) (sample_env [''d'']) [''a''] [''d''] True False False 0 (initially tree_a))
       = Inr 8
   \<and> read_text (disk (snd (get_snapshot (Suc 5) (sample_env [''d'']) [''a''] [''d''] True False False 0
        (initially tree_a)))) [''d'', ''a'', ''a.html'']
       = Some (''<h1>a</h1><files><f>.hidden: 3 B</f><f>x.txt: 5 B</f><end><dirs>''
               @ ''Recursion depth limit reached!'' @ newline @ ''<end><links>No symlinks found.''
               @ newline @ ''<end><total>8 B</total>'')
   \<and> map_of (disk (snd (get_snapshot (Suc 5) (sample_env [''d'']) [''a''] [''d''] True False False 0
        (initially tree_a)))) [''d'', ''a'', ''b''] = None
   \<and> fst (open_dirs_table (sample_env [''d'']) [''d'', ''a'', ''a.html''] 3 [[''a'', ''b'']]
            (snd (reset_mirror [''d'', ''a''] [''d'', ''a'', ''a.html''] (initially tree_a))))
       = Inr [[''a'', ''b'']]
   \<and> get_snapshot 2 (sample_env [''d'']) [''a''] [''d''] True False False 1 (initially tree_a)
     = get_snapshot 7 (sample_env [''d'']) [''a''] [''d''] True False False 1 (initially tree_a)"
proof -
  let ?E = "sample_env [''d'']"
  let ?s = "initially tree_a"
  let ?t = "snd (reset_mirror [''d'', ''a''] [''d'', ''a'', ''a.html''] ?s)"
  let ?shallow = "get_snapshot (Suc 0) ?E [''a''] [''d''] True False False 0 ?s"
  have pwd: "[''d'', ''a''] = joinpath [''d''] (name [''a''])"
    by code_simp
  note inst = depth_limit [OF pwd, where E = "?E" and progress_bar = True and ignore_hidden = False
      and ignore_symlinks = False and s = "?s" and out = "[''d'', ''a'', ''a.html'']"
      and dirs = "[[''a'', ''b'']]" and t = "?t"]
  have same: "get_snapshot (Suc 5) ?E [''a''] [''d''] True False False 0 ?s = ?shallow"
    unfolding get_snapshot.simps(2) [of 0]
    using inst [where max_rec_depth = 0 and limit = 5, THEN conjunct1] by blast
  have val: "fst ?shallow = Inr 8"
    by code_simp
  have doc: "read_text (disk (snd ?shallow)) [''d'', ''a'', ''a.html'']
       = Some (''<h1>a</h1><files><f>.hidden: 3 B</f><f>x.txt: 5 B</f><end><dirs>''
               @ ''Recursion depth limit reached!'' @ newline @ ''<end><links>No symlinks found.''
               @ newline @ ''<end><total>8 B</total>'')"
    by code_simp
  have nodir: "map_of (disk (snd ?shallow)) [''d'', ''a'', ''b''] = None"
    by code_simp
  have "(3::int) \<noteq> 0"
    by simp
  with inst [where max_rec_depth = 3 and limit = 5, THEN conjunct2, THEN conjunct2, THEN conjunct2,
      THEN conjunct1]
  have all: "\<forall>dirs' t'. open_dirs_table ?E [''d'', ''a'', ''a.html''] 3 [[''a'', ''b'']] ?t = (Inr dirs', t')
      \<longrightarrow> dirs' = [[''a'', ''b'']]"
    by blast
  have "\<not> isl (fst (open_dirs_table ?E [''d'', ''a'', ''a.html''] 3 [[''a'', ''b'']] ?t))"
    by code_simp
  then obtain dirs' where r: "fst (open_dirs_table ?E [''d'', ''a'', ''a.html''] 3 [[''a'', ''b'']] ?t) = Inr dirs'"
    by (cases "fst (open_dirs_table ?E [''d'', ''a'', ''a.html''] 3 [[''a'', ''b'']] ?t)") auto
  then have "open_dirs_table ?E [''d'', ''a'', ''a.html''] 3 [[''a'', ''b'']] ?t
      = (Inr dirs', snd (open_dirs_table ?E [''d'', ''a'', ''a.html''] 3 [[''a'', ''b'']] ?t))"
    by (metis prod.collapse)
  with all have "dirs' = [[''a'', ''b'']]"
    by blast
  with r have kept: "fst (open_dirs_table ?E [''d'', ''a'', ''a.html''] 3 [[''a'', ''b'']] ?t) = Inr [[''a'', ''b'']]"
    by simp
  have "(0::int) \<le> 1" "nat 1 < (2::nat)" "nat 1 < (7::nat)"
    by simp_all
  with inst [where max_rec_depth = 1 and limit = 2 and limit' = 7, THEN conjunct2, THEN conjunct2,
      THEN conjunct2, THEN conjunct2, THEN conjunct2, THEN conjunct2]
  have deep: "get_snapshot 2 ?E [''a''] [''d''] True False False 1 ?s
      = get_snapshot 7 ?E [''a''] [''d''] True False False 1 ?s"
    by blast
  from same val doc nodir kept deep show ?thesis
    by (simp only:)
qed

section \<open>Failures of single entries\<close>

text \<open>
  Claim C6 does not hold of the code. The claim says that an entry whose processing
  raised is caught and logged, that its siblings are processed, and that its size is
  left out of the totals. The first two hold of all three loops, and the loop over the
  files (lines 90 to 95) also leaves the size out. The loop over the directories (lines
  105 to 112) does not: line 109 adds \<^verbatim>\<open>dir_size\<close> before line 110 writes the row, inside
  the same \<^verbatim>\<open>try\<close>. The processing of the directory \<^verbatim>\<open>b\<close> below fails: its report is
  written, then writing its row raises, the error line for \<^verbatim>\<open>/a/b\<close> is printed and the
  report of \<^verbatim>\<open>/a\<close> gets no row for it. The sibling \<^verbatim>\<open>c\<close> is processed as usual. The total
  of \<^verbatim>\<open>/a\<close> is 8, the 3 bytes of \<^verbatim>\<open>c\<close> and the 5 bytes of the failed \<^verbatim>\<open>b\<close>, where the claim
  gives 3.
\<close>

theorem failed_directory_is_counted:
  "fst (get_snapshot (Suc 1) flaky_env [''a''] [''d''] False False False 3 (initially tree_two)) = Inr 8
   \<and> stdout (snd (get_snapshot (Suc 1) flaky_env [''a''] [''d''] False False False 3 (initially tree_two)))
       = [Error_directory [''a'', ''b''] OSError]
   \<and> read_text (disk (snd (get_snapshot (Suc 1) flaky_env [''a''] [''d''] False False False 3
        (initially tree_two)))) [''d'', ''a'', ''a.html'']
       = Some (''<h1>a</h1><files>No files found.'' @ newline @ ''<end><dirs><d>c: 3 B</d><end>''
               @ ''<links>No symlinks found.'' @ newline @ ''<end><total>8 B</total>'')
   \<and> read_text (disk (snd (get_snapshot (Suc 1) flaky_env [''a''] [''d''] False False False 3
        (initially tree_two)))) [''d'', ''a'', ''b'', ''b.html'']
       = Some (''<h1>b</h1><files><f>f: 5 B</f><end><dirs>No subdirectories found.'' @ newline
               @ ''<end><links>No symlinks found.'' @ newline @ ''<end><total>5 B</total>'')"
  by code_simp

text \<open>
  What holds of the three loops. Each of them handles every entry of its list and always
  hands back a total and a state: an exception raised while an entry is processed never
  leaves the loop. For every entry whose processing raised, a line with the entry and
  the exception is printed (for files exactly those lines, in order; for symbolic links
  likewise, with the wording of the directories). A file whose processing raised adds
  nothing to the total, and a directory whose recursive call raised adds nothing; a
  directory whose recursive call returned adds the total returned, whether its row was
  written or not.
\<close>

lemma entry_failures_are_isolated:
  assumes snap: "snap = (\<lambda>a b c. get_snapshot limit E a b progress_bar ignore_hidden ignore_symlinks c)"
  shows "fst (files_loop E out progress_bar files a s)
           = a + sum_list (successes (file_outcomes E out progress_bar files s))
       \<and> length (file_outcomes E out progress_bar files s) = length files
       \<and> stdout (snd (files_loop E out progress_bar files a s))
           = stdout s @ map (\<lambda>(entry, e). Error_file entry e)
                          (failures files (file_outcomes E out progress_bar files s))
       \<and> fst (dirs_loop snap E src_path pwd out max_rec_depth dirs a s)
           = a + sum_list (returned_totals (dir_outcomes snap E src_path pwd out max_rec_depth dirs s))
       \<and> length (dir_outcomes snap E src_path pwd out max_rec_depth dirs s) = length dirs
       \<and> (\<forall>(entry, e) \<in> set (dir_failures dirs (dir_outcomes snap E src_path pwd out max_rec_depth dirs s)).
            Error_directory entry e
              \<in> set (stdout (snd (dirs_loop snap E src_path pwd out max_rec_depth dirs a s))))
       \<and> length (symlink_outcomes E out progress_bar symlinks s) = length symlinks
       \<and> stdout (symlinks_loop E out progress_bar symlinks s)
           = stdout s @ map (\<lambda>(entry, e). Error_directory entry e)
                          (failures symlinks (symlink_outcomes E out progress_bar symlinks s))"
proof -
  have g: "\<forall>a b c. grows (snap a b c)"
    by (simp add: snap grows_get_snapshot)
  have logged: "\<forall>(entry, e) \<in> set (dir_failures dirs (dir_outcomes snap E src_path pwd out max_rec_depth dirs s)).
            Error_directory entry e
              \<in> set (stdout (snd (dirs_loop snap E src_path pwd out max_rec_depth dirs a s)))"
    using dirs_loop_logged [OF g] by blast
  show ?thesis
    using files_loop_sum [of E out progress_bar files a s]
      length_file_outcomes [of E out progress_bar files s]
      files_loop_log [of E out progress_bar files a s]
      dirs_loop_sum [of snap E src_path pwd out max_rec_depth dirs a s]
      length_dir_outcomes [of snap E src_path pwd out max_rec_depth dirs s]
      logged
      length_symlink_outcomes [of E out progress_bar symlinks s]
      symlinks_loop_log [of E out progress_bar symlinks s]
    by blast
qed

text \<open>
  A listed file that is not there any more and a directory whose row cannot be written:
  both are printed, the loops go on, the file adds nothing.
\<close>

lemma entry_failures_are_isolated_example:
  "file_outcomes flaky_env [''d'', ''a'', ''a.html''] False [[''a'', ''ghost''], [''a'', ''b'', ''f'']]
     (snd (reset_mirror [''d'', ''a''] [''d'', ''a'', ''a.html''] (initially tree_nested)))
     = [Inl FileNotFoundError, Inr 5]
   \<and> fst (files_loop flaky_env [''d'', ''a'', ''a.html''] False [[''a'', ''ghost''], [''a'', ''b'', ''f'']] 0
            (snd (reset_mirror [''d'', ''a''] [''d'', ''a'', ''a.html''] (initially tree_nested)))) = 5
   \<and> stdout (snd (files_loop flaky_env [''d'', ''a'', ''a.html''] False
                    [[''a'', ''ghost''], [''a'', ''b'', ''f'']] 0
                    (snd (reset_mirror [''d'', ''a''] [''d'', ''a'', ''a.html''] (initially tree_nested)))))
       = [Error_file [''a'', ''ghost''] FileNotFoundError]
   \<and> dir_outcomes (\<lambda>a b c. get_snapshot (Suc 0) flaky_env a b False False False c) flaky_env
        [''a''] [''d'', ''a''] [''d'', ''a'', ''a.html''] 3 [[''a'', ''b'']]
        (snd (reset_mirror [''d'', ''a''] [''d'', ''a'', ''a.html''] (initially tree_nested)))
       = [Row_raised 5 OSError]
   \<and> fst (dirs_loop (\<lambda>a b c. get_snapshot (Suc 0) flaky_env a b False False False c) flaky_env
        [''a''] [''d'', ''a''] [''d'', ''a'', ''a.html''] 3 [[''a'', ''b'']] 0
        (snd (reset_mirror [''d'', ''a''] [''d'', ''a'', ''a.html''] (initially tree_nested)))) = 5
   \<and> Error_directory [''a'', ''b''] OSError
       \<in> set (stdout (snd (dirs_loop (\<lambda>a b c. get_snapshot (Suc 0) flaky_env a b False False False c)
            flaky_env [''a''] [''d'', ''a''] [''d'', ''a'', ''a.html''] 3 [[''a'', ''b'']] 0
            (snd (reset_mirror [''d'', ''a''] [''d'', ''a'', ''a.html''] (initially tree_nested))))))"
proof -
  let ?s = "snd (reset_mirror [''d'', ''a''] [''d'', ''a'', ''a.html''] (initially tree_nested))"
  let ?out = "[''d'', ''a'', ''a.html'']"
  let ?files = "[[''a'', ''ghost''], [''a'', ''b'', ''f'']]"
  let ?snap = "\<lambda>a b c. get_snapshot (Suc 0) flaky_env a b False False False c"
  have fo: "file_outcomes flaky_env ?out False ?files ?s = [Inl FileNotFoundError, Inr 5]"
    by code_simp
  have do: "dir_outcomes ?snap flaky_env [''a''] [''d'', ''a''] ?out 3 [[''a'', ''b'']] ?s
      = [Row_raised 5 OSError]"
    by code_simp
  have start: "stdout ?s = []"
    by code_simp
  note inst = entry_failures_are_isolated [OF refl, where limit = "Suc 0" and E = flaky_env
      and progress_bar = False and ignore_hidden = False and ignore_symlinks = False
      and out = "?out" and files = "?files" and a = 0 and s = "?s" and src_path = "[''a'']"
      and pwd = "[''d'', ''a'']" and max_rec_depth = 3 and dirs = "[[''a'', ''b'']]"
      and symlinks = "[]"]
  note c1 = inst [THEN conjunct1]
  note c3 = inst [THEN conjunct2, THEN conjunct2, THEN conjunct1]
  note c4 = inst [THEN conjunct2, THEN conjunct2, THEN conjunct2, THEN conjunct1]
  note c6 = inst [THEN conjunct2, THEN conjunct2, THEN conjunct2, THEN conjunct2, THEN conjunct2,
      THEN conjunct1]
  have 1: "fst (files_loop flaky_env ?out False ?files 0 ?s) = 5"
    using c1 unfolding fo by (simp del: files_loop.simps)
  have 2: "stdout (snd (files_loop flaky_env ?out False ?files 0 ?s))
      = [Error_file [''a'', ''ghost''] FileNotFoundError]"
    using c3 unfolding fo start by (simp del: files_loop.simps)
  have 3: "fst (dirs_loop ?snap flaky_env [''a''] [''d'', ''a''] ?out 3 [[''a'', ''b'']] 0 ?s) = 5"
    using c4 unfolding do by (simp del: dirs_loop.simps get_snapshot.simps)
  have 4: "Error_directory [''a'', ''b''] OSError
      \<in> set (stdout (snd (dirs_loop ?snap flaky_env [''a''] [''d'', ''a''] ?out 3 [[''a'', ''b'']] 0 ?s)))"
    using c6 unfolding do by (simp del: dirs_loop.simps get_snapshot.simps)
  from fo do 1 2 3 4 show ?thesis by blast
qed

section \<open>The order of the listing\<close>

text \<open>
  Claim C7. Two listing collaborators that enumerate the same entries in different
  orders give the same run of \<^verbatim>\<open>get_snapshot\<close>: the same result and the same state, so the
  same reports. The three lists the rows are written from, in order, are made from the
  sorted listing; when the entries are the children of one directory, each list is
  sorted by name, and together they hold every entry of the listing.
\<close>

theorem listing_order:
  assumes perm: "\<forall>p a b fs. rel_option (\<lambda>xs ys. mset xs = mset ys) (L p a b fs) (L' p a b fs)"
    and cat: "categorize fs (sort contents) ([], [], []) = (symlinks, files, dirs)"
    and siblings: "\<forall>x \<in> set contents. \<exists>n. x = parent @ [n]"
  shows "get_snapshot limit (E\<lparr>list_dir_contents := L\<rparr>) src_path dest_path progress_bar
           ignore_hidden ignore_symlinks max_rec_depth s
       = get_snapshot limit (E\<lparr>list_dir_contents := L'\<rparr>) src_path dest_path progress_bar
           ignore_hidden ignore_symlinks max_rec_depth s
       \<and> sorted (map name files) \<and> sorted (map name dirs) \<and> sorted (map name symlinks)
       \<and> set files \<union> set dirs \<union> set symlinks = set contents"
proof -
  from cat have parts: "symlinks = filter (\<lambda>e. \<not> is_dir fs e \<and> is_symlink fs e) (sort contents)"
    "files = filter (\<lambda>e. \<not> is_dir fs e \<and> \<not> is_symlink fs e) (sort contents)"
    "dirs = filter (is_dir fs) (sort contents)"
    by (simp_all add: categorize_filter)
  have sorted: "sorted (filter P (sort contents))" for P
    by (simp add: sorted_wrt_filter)
  have sib: "\<forall>x \<in> set (filter P (sort contents)). \<exists>n. x = parent @ [n]" for P
    using siblings by simp
  have "sorted (map name files)" "sorted (map name dirs)" "sorted (map name symlinks)"
    unfolding parts by (rule sorted_names [OF sorted sib])+
  moreover have "set files \<union> set dirs \<union> set symlinks = set contents"
    unfolding parts by auto
  ultimately show ?thesis
    using get_snapshot_lister [OF perm] by blast
qed

text \<open>The listing of \<^verbatim>\<open>/a\<close> and its reverse give the same run.\<close>

theorem listing_order_witness:
  "scan_dir [''a''] False False tree_a = Some [[''a'', ''x.txt''], [''a'', ''.hidden''], [''a'', ''b'']]
   \<and> map_option rev (scan_dir [''a''] False False tree_a)
       = Some [[''a'', ''b''], [''a'', ''.hidden''], [''a'', ''x.txt'']]
   \<and> get_snapshot (Suc 1) ((sample_env [''d''])\<lparr>list_dir_contents := scan_dir\<rparr>) [''a''] [''d'']
         True False False 3 (initially tree_a)
     = get_snapshot (Suc 1)
         ((sample_env [''d''])\<lparr>list_dir_contents := (\<lambda>p a b fs. map_option rev (scan_dir p a b fs))\<rparr>)
         [''a''] [''d''] True False False 3 (initially tree_a)
   \<and> categorize tree_a (sort [[''a'', ''x.txt''], [''a'', ''.hidden''], [''a'', ''b'']]) ([], [], [])
       = ([], [[''a'', ''.hidden''], [''a'', ''x.txt'']], [[''a'', ''b'']])
   \<and> sorted (map name [[''a'', ''.hidden''], [''a'', ''x.txt'']])"
proof -
  let ?contents = "[[''a'', ''x.txt''], [''a'', ''.hidden''], [''a'', ''b'']]"
  have perm: "\<forall>p a b fs. rel_option (\<lambda>xs ys. mset xs = mset ys)
      (scan_dir p a b fs) (map_option rev (scan_dir p a b fs))"
    by (auto simp: option.rel_map intro!: option.rel_refl)
  have cat: "categorize tree_a (sort ?contents) ([], [], [])
      = ([], [[''a'', ''.hidden''], [''a'', ''x.txt'']], [[''a'', ''b'']])"
    by code_simp
  have siblings: "\<forall>x \<in> set ?contents. \<exists>n. x = [''a''] @ [n]"
    by simp
  have l1: "scan_dir [''a''] False False tree_a = Some ?contents"
    by code_simp
  have l2: "map_option rev (scan_dir [''a''] False False tree_a)
      = Some [[''a'', ''b''], [''a'', ''.hidden''], [''a'', ''x.txt'']]"
    by code_simp
  note inst = listing_order [OF perm cat siblings, where limit = "Suc 1" and E = "sample_env [''d'']"
      and src_path = "[''a'']" and dest_path = "[''d'']" and progress_bar = True
      and ignore_hidden = False and ignore_symlinks = False and max_rec_depth = 3
      and s = "initially tree_a"]
  from inst l1 l2 cat show ?thesis
    by blast
qed

section \<open>A fresh mirror directory\<close>

text \<open>
  Claim C8. When the mirror directory \<open>pwd\<close> of the visited directory exists already and
  the reset of lines 48 to 55 goes through, \<open>pwd\<close> is a directory afterwards and holds
  nothing but the new, empty report file: all it held before is gone before anything is
  written. And what it held has no influence on the run: from two states that differ
  only in what is below the existing directory \<open>pwd\<close>, \<^verbatim>\<open>get_snapshot\<close> gives the same
  result and leaves the same state, so nothing of an earlier run's mirror shows in the
  new one.
\<close>

theorem mirror_is_reset:
  assumes pwd: "pwd = joinpath dest_path (name src_path)"
    and out: "out = joinpath pwd (name src_path @ ''.html'')"
  shows "(exists (disk s) pwd \<longrightarrow> reset_mirror pwd out s = (Inr (), s') \<longrightarrow>
            node_at (disk s') pwd = Some Dir
          \<and> (\<forall>q. strict_prefix pwd q \<longrightarrow> map_of (disk s') q = (if q = out then Some (File []) else None)))
       \<and> (exists (disk s) pwd \<longrightarrow> exists (disk t) pwd \<longrightarrow>
          node_at (disk s) pwd = Some Dir \<longrightarrow> node_at (disk t) pwd = Some Dir \<longrightarrow>
          filter (\<lambda>(q, n). \<not> prefix pwd q) (disk s) = filter (\<lambda>(q, n). \<not> prefix pwd q) (disk t) \<longrightarrow>
          stdout s = stdout t \<longrightarrow> bar_n s = bar_n t \<longrightarrow>
            get_snapshot (Suc limit) E src_path dest_path progress_bar ignore_hidden ignore_symlinks
              max_rec_depth s
          = get_snapshot (Suc limit) E src_path dest_path progress_bar ignore_hidden ignore_symlinks
              max_rec_depth t)"
proof (intro conjI impI)
  assume "exists (disk s) pwd" "reset_mirror pwd out s = (Inr (), s')"
  then show "node_at (disk s') pwd = Some Dir"
    using reset_mirror_fresh(1) [of s pwd "name src_path @ ''.html''" "()" s']
    by (simp add: out out_file_path_below)
next
  assume "exists (disk s) pwd" "reset_mirror pwd out s = (Inr (), s')"
  then show "\<forall>q. strict_prefix pwd q \<longrightarrow> map_of (disk s') q = (if q = out then Some (File []) else None)"
    using reset_mirror_fresh(2) [of s pwd "name src_path @ ''.html''" "()" s']
    by (simp add: out out_file_path_below)
next
  assume "exists (disk s) pwd" "exists (disk t) pwd"
    "node_at (disk s) pwd = Some Dir" "node_at (disk t) pwd = Some Dir"
    "filter (\<lambda>(q, n). \<not> prefix pwd q) (disk s) = filter (\<lambda>(q, n). \<not> prefix pwd q) (disk t)"
    "stdout s = stdout t" "bar_n s = bar_n t"
  then have "reset_mirror pwd out s = reset_mirror pwd out t"
    by (rule reset_mirror_forgets)
  then show "get_snapshot (Suc limit) E src_path dest_path progress_bar ignore_hidden ignore_symlinks
              max_rec_depth s
          = get_snapshot (Suc limit) E src_path dest_path progress_bar ignore_hidden ignore_symlinks
              max_rec_depth t"
    unfolding get_snapshot.simps snapshot_body_def Let_def pwd [symmetric] out [symmetric]
    by (simp add: io_bind_def)
qed

text \<open>
  A file left in the mirror by an earlier run is gone after the reset, and the run from
  the tree with that file equals the run from the tree with the empty mirror. Running
  the tool a second time on what the first run left gives the same file system again.
\<close>

theorem mirror_is_reset_witness:
  "exists tree_a_stale [''d'', ''a''] \<and> exists tree_a_clean [''d'', ''a'']
   \<and> map_of tree_a_stale [''d'', ''a'', ''old.txt''] = Some (File ''stale'')
   \<and> map_of (disk (snd (reset_mirror [''d'', ''a''] [''d'', ''a'', ''a.html''] (initially tree_a_stale))))
        [''d'', ''a'', ''old.txt''] = None
   \<and> get_snapshot (Suc 1) (sample_env [''d'']) [''a''] [''d''] True True False 3 (initially tree_a_stale)
     = get_snapshot (Suc 1) (sample_env [''d'']) [''a''] [''d''] True True False 3 (initially tree_a_clean)
   \<and> disk (snd (get_snapshot (Suc 1) (sample_env [''d'']) [''a''] [''d''] True True False 3
        (snd (get_snapshot (Suc 1) (sample_env [''d'']) [''a''] [''d''] True True False 3
               (initially tree_a)))))
     = disk (snd (get_snapshot (Suc 1) (sample_env [''d'']) [''a''] [''d''] True True False 3
               (initially tree_a)))"
proof -
  let ?s = "initially tree_a_stale" and ?t = "initially tree_a_clean"
  let ?r = "snd (reset_mirror [''d'', ''a''] [''d'', ''a'', ''a.html''] ?s)"
  have pwd: "[''d'', ''a''] = joinpath [''d''] (name [''a''])"
    by code_simp
  have out: "[''d'', ''a'', ''a.html''] = joinpath [''d'', ''a''] (name [''a''] @ ''.html'')"
    by code_simp
  have es: "exists (disk ?s) [''d'', ''a'']" and et: "exists (disk ?t) [''d'', ''a'']"
    by code_simp+
  have ds: "node_at (disk ?s) [''d'', ''a''] = Some Dir" and dt: "node_at (disk ?t) [''d'', ''a''] = Some Dir"
    by code_simp+
  have same: "filter (\<lambda>(q, n). \<not> prefix [''d'', ''a''] q) (disk ?s)
      = filter (\<lambda>(q, n). \<not> prefix [''d'', ''a''] q) (disk ?t)"
    by code_simp
  have log: "stdout ?s = stdout ?t" and bar: "bar_n ?s = bar_n ?t"
    by (simp_all add: initially_def)
  have reset: "reset_mirror [''d'', ''a''] [''d'', ''a'', ''a.html''] ?s = (Inr (), ?r)"
    by code_simp
  have below: "strict_prefix [''d'', ''a''] [''d'', ''a'', ''old.txt'']"
    by (simp add: strict_prefix_def)
  have other: "[''d'', ''a'', ''old.txt''] \<noteq> [''d'', ''a'', ''a.html'']"
    by simp
  note inst = mirror_is_reset [OF pwd out, where s = "?s" and t = "?t" and s' = "?r"
      and limit = "1" and E = "sample_env [''d'']" and progress_bar = "True" and ignore_hidden = "True"
      and ignore_symlinks = "False" and max_rec_depth = "3"]
  from inst es reset below other
  have 1: "map_of (disk ?r) [''d'', ''a'', ''old.txt''] = None"
    by metis
  from inst es et ds dt same log bar
  have 2: "get_snapshot (Suc 1) (sample_env [''d'']) [''a''] [''d''] True True False 3 ?s
     = get_snapshot (Suc 1) (sample_env [''d'']) [''a''] [''d''] True True False 3 ?t"
    by blast
  have 3: "exists tree_a_stale [''d'', ''a'']" "exists tree_a_clean [''d'', ''a'']"
    "map_of tree_a_stale [''d'', ''a'', ''old.txt''] = Some (File ''stale'')"
    by code_simp+
  have 4: "disk (snd (get_snapshot (Suc 1) (sample_env [''d'']) [''a''] [''d''] True True False 3
        (snd (get_snapshot (Suc 1) (sample_env [''d'']) [''a''] [''d''] True True False 3
               (initially tree_a)))))
     = disk (snd (get_snapshot (Suc 1) (sample_env [''d'']) [''a''] [''d''] True True False 3
               (initially tree_a)))"
    by code_simp
  from 1 2 3 4 show ?thesis by blast
qed

section \<open>A directory that cannot be listed\<close>

text \<open>
  Claim C9. For a directory that is not the original destination and whose mirror has
  been reset: when \<^verbatim>\<open>list_dir_contents\<close> answers \<^verbatim>\<open>None\<close>, the call returns 0 at once, as a
  normal result and in the state the reset left (no row, no line printed, no exception);
  when it answers the empty list, a call that returns also returns 0.
\<close>

theorem unlistable_directory:
  assumes guard: "Some src_path \<noteq> dest_path_root E"
    and pwd: "pwd = joinpath dest_path (name src_path)"
    and out: "out = joinpath pwd (name src_path @ ''.html'')"
    and reset: "reset_mirror pwd out s = (Inr (), s')"
  shows "(list_dir_contents E src_path ignore_symlinks ignore_hidden (disk s') = None \<longrightarrow>
            get_snapshot (Suc limit) E src_path dest_path progress_bar ignore_hidden ignore_symlinks
              max_rec_depth s = (Inr 0, s'))
       \<and> (list_dir_contents E src_path ignore_symlinks ignore_hidden (disk s') = Some [] \<longrightarrow>
            (\<forall>v s''. get_snapshot (Suc limit) E src_path dest_path progress_bar ignore_hidden
                        ignore_symlinks max_rec_depth s = (Inr v, s'') \<longrightarrow> v = 0))"
proof (intro conjI impI allI)
  assume "list_dir_contents E src_path ignore_symlinks ignore_hidden (disk s') = None"
  with guard reset show "get_snapshot (Suc limit) E src_path dest_path progress_bar ignore_hidden
      ignore_symlinks max_rec_depth s = (Inr 0, s')"
    unfolding get_snapshot.simps snapshot_body_def Let_def pwd [symmetric] out [symmetric]
    by (simp add: io_bind_def io_return_def)
next
  fix v s''
  let ?snap = "\<lambda>a b c. get_snapshot limit E a b progress_bar ignore_hidden ignore_symlinks c"
  assume listing: "list_dir_contents E src_path ignore_symlinks ignore_hidden (disk s') = Some []"
    and run: "get_snapshot (Suc limit) E src_path dest_path progress_bar ignore_hidden
                ignore_symlinks max_rec_depth s = (Inr v, s'')"
  have cat: "categorize (disk s') (sort []) ([], [], []) = ([], [], [])"
    by simp
  have "write_report ?snap E src_path pwd out progress_bar ignore_symlinks max_rec_depth (sort []) s'
      = (Inr v, s'')"
    by (rule get_snapshot_report [OF run guard pwd out reset listing])
  from write_report_total [OF this cat]
  obtain s2 s3 dirs' s4 where od: "open_dirs_table E out max_rec_depth [] s3 = (Inr dirs', s4)"
    and v: "v = sum_list (successes (file_outcomes E out progress_bar [] s2))
          + sum_list (returned_totals (dir_outcomes ?snap E src_path pwd out max_rec_depth dirs' s4))"
    by blast
  from open_dirs_table_result [OF od] have "dirs' = []"
    by simp
  with v show "v = 0" by simp
qed

text \<open>A source path that does not exist: the listing is \<^verbatim>\<open>None\<close> and the call returns 0.\<close>

theorem unlistable_directory_witness:
  "Some [''nowhere''] \<noteq> dest_path_root (sample_env [''d''])
   \<and> list_dir_contents (sample_env [''d'']) [''nowhere''] False True
        (disk (snd (reset_mirror [''d'', ''nowhere''] [''d'', ''nowhere'', ''nowhere.html''] (initially tree_a))))
       = None
   \<and> get_snapshot (Suc 1) (sample_env [''d'']) [''nowhere''] [''d''] True True False 3 (initially tree_a)
       = (Inr 0, snd (reset_mirror [''d'', ''nowhere''] [''d'', ''nowhere'', ''nowhere.html''] (initially tree_a)))"
proof -
  let ?E = "sample_env [''d'']"
  let ?r = "snd (reset_mirror [''d'', ''nowhere''] [''d'', ''nowhere'', ''nowhere.html''] (initially tree_a))"
  have guard: "Some [''nowhere''] \<noteq> dest_path_root ?E"
    by (simp add: sample_env_def)
  have pwd: "[''d'', ''nowhere''] = joinpath [''d''] (name [''nowhere''])"
    by code_simp
  have out: "[''d'', ''nowhere'', ''nowhere.html''] = joinpath [''d'', ''nowhere''] (name [''nowhere''] @ ''.html'')"
    by code_simp
  have reset: "reset_mirror [''d'', ''nowhere''] [''d'', ''nowhere'', ''nowhere.html''] (initially tree_a) = (Inr (), ?r)"
    by code_simp
  have listing: "list_dir_contents ?E [''nowhere''] False True (disk ?r) = None"
    by code_simp
  from unlistable_directory [OF guard pwd out reset, where ignore_symlinks = "False"
      and ignore_hidden = "True" and limit = "1" and progress_bar = "True" and max_rec_depth = "3"] listing
  have "get_snapshot (Suc 1) ?E [''nowhere''] [''d''] True True False 3 (initially tree_a) = (Inr 0, ?r)"
    by blast
  with guard listing show ?thesis by blast
qed

section \<open>The reset comes before the guard\<close>

text \<open>
  Claim C10. The reset of the mirror directory is the first thing every call does: when
  it raises, the call raises the same exception in the same state and nothing has been
  printed, whether or not the source is the original destination. On the guard path,
  with the mirror directory there before the call, a call that returns leaves the
  mirror as a directory that holds the report with the marker and nothing else: what was
  in it has been deleted although nothing is traversed.
\<close>

theorem reset_precedes_guard:
  assumes pwd: "pwd = joinpath dest_path (name src_path)"
    and out: "out = joinpath pwd (name src_path @ ''.html'')"
  shows "(\<forall>e s1. reset_mirror pwd out s = (Inl e, s1) \<longrightarrow>
            get_snapshot (Suc limit) E src_path dest_path progress_bar ignore_hidden ignore_symlinks
              max_rec_depth s = (Inl e, s1)
          \<and> stdout s1 = stdout s)
       \<and> (dest_path_root E = Some src_path \<longrightarrow> exists (disk s) pwd \<longrightarrow>
            (\<forall>v s'. get_snapshot (Suc limit) E src_path dest_path progress_bar ignore_hidden
                       ignore_symlinks max_rec_depth s = (Inr v, s') \<longrightarrow>
               node_at (disk s') pwd = Some Dir
             \<and> (\<forall>q. strict_prefix pwd q \<longrightarrow>
                    map_of (disk s') q = (if q = out then Some (File marker) else None))))"
proof (rule conjI)
  show "\<forall>e s1. reset_mirror pwd out s = (Inl e, s1) \<longrightarrow>
            get_snapshot (Suc limit) E src_path dest_path progress_bar ignore_hidden ignore_symlinks
              max_rec_depth s = (Inl e, s1)
          \<and> stdout s1 = stdout s"
  proof (intro allI impI conjI)
    fix e s1
    assume r: "reset_mirror pwd out s = (Inl e, s1)"
    then show "get_snapshot (Suc limit) E src_path dest_path progress_bar ignore_hidden ignore_symlinks
                max_rec_depth s = (Inl e, s1)"
      unfolding get_snapshot.simps snapshot_body_def Let_def pwd [symmetric] out [symmetric]
      by (simp add: io_bind_def)
    show "stdout s1 = stdout s"
      by (rule reset_mirror_log(1) [OF r])
  qed
  show "dest_path_root E = Some src_path \<longrightarrow> exists (disk s) pwd \<longrightarrow>
            (\<forall>v s'. get_snapshot (Suc limit) E src_path dest_path progress_bar ignore_hidden
                       ignore_symlinks max_rec_depth s = (Inr v, s') \<longrightarrow>
               node_at (disk s') pwd = Some Dir
             \<and> (\<forall>q. strict_prefix pwd q \<longrightarrow>
                    map_of (disk s') q = (if q = out then Some (File marker) else None)))"
    using guard_leaves_fresh_mirror [OF _ pwd out] by blast
qed

text \<open>
  Source and destination both \<^verbatim>\<open>/a\<close> with the mirror \<^verbatim>\<open>/a/a\<close> of an earlier run: the
  call returns \<open>-1\<close> and the old file in the mirror is gone.
\<close>

theorem reset_precedes_guard_witness:
  "dest_path_root (sample_env [''a'']) = Some [''a''] \<and> exists tree_self [''a'', ''a'']
   \<and> map_of tree_self [''a'', ''a'', ''old.txt''] = Some (File ''stale'')
   \<and> fst (get_snapshot (Suc 0) (sample_env [''a'']) [''a''] [''a''] True True False 3 (initially tree_self))
       = Inr (- 1)
   \<and> map_of (disk (snd (get_snapshot (Suc 0) (sample_env [''a'']) [''a''] [''a''] True True False 3
        (initially tree_self)))) [''a'', ''a'', ''old.txt''] = None"
proof -
  let ?E = "sample_env [''a'']"
  let ?run = "get_snapshot (Suc 0) ?E [''a''] [''a''] True True False 3 (initially tree_self)"
  have guard: "dest_path_root ?E = Some [''a'']"
    by (simp add: sample_env_def)
  have pwd: "[''a'', ''a''] = joinpath [''a''] (name [''a''])"
    by code_simp
  have out: "[''a'', ''a'', ''a.html''] = joinpath [''a'', ''a''] (name [''a''] @ ''.html'')"
    by code_simp
  have ex: "exists (disk (initially tree_self)) [''a'', ''a'']"
    by code_simp
  have run: "?run = (Inr (- 1), snd ?run)"
    by code_simp
  have below: "strict_prefix [''a'', ''a''] [''a'', ''a'', ''old.txt'']"
    by (simp add: strict_prefix_def)
  have other: "[''a'', ''a'', ''old.txt''] \<noteq> [''a'', ''a'', ''a.html'']"
    by simp
  from reset_precedes_guard [OF pwd out, where E = "?E" and limit = "0" and progress_bar = "True"
      and ignore_hidden = "True" and ignore_symlinks = "False" and max_rec_depth = "3"
      and s = "initially tree_self"] guard ex run below other
  have "map_of (disk (snd ?run)) [''a'', ''a'', ''old.txt''] = None"
    by metis
  moreover have "exists tree_self [''a'', ''a'']"
    "map_of tree_self [''a'', ''a'', ''old.txt''] = Some (File ''stale'')"
    by code_simp+
  moreover have "fst ?run = Inr (- 1)"
    using run by (metis fst_conv)
  ultimately show ?thesis using guard by blast
qed

end
